theory Spec2Isabelle
  imports Complex_Main "HOL-Library.Sublist"
begin

section \<open>Python strings\<close>

text \<open>
  A Python \<^verbatim>\<open>str\<close> is a sequence of Unicode code points, so a string is modelled as
  a list of code points (natural numbers): \<open>length\<close> counts what \<^verbatim>\<open>len\<close> counts, and
  the Cyrillic vocabulary of the program is written with its code points.
\<close>

type_synonym pstr = "nat list"

definition asc :: "string \<Rightarrow> pstr" where
  "asc s = map of_char s"

text \<open>
  The rows of the Unicode character database that the string methods and the \<^verbatim>\<open>re\<close>
  module consult are not part of the repository. They are a parameter of the model:
  \<open>u_decimal\<close> is the value of a decimal digit (category Nd, what \<^verbatim>\<open>\d\<close> matches and
  \<^verbatim>\<open>int\<close> reads), \<open>u_isalnum\<close> is \<^verbatim>\<open>str.isalnum\<close> on one code point (what \<^verbatim>\<open>\w\<close>
  matches, with the underscore), \<open>u_lower\<close> is \<^verbatim>\<open>str.lower\<close>.
\<close>

record ucd =
  u_decimal :: "nat \<Rightarrow> nat option"
  u_isalnum :: "nat \<Rightarrow> bool"
  u_lower :: "pstr \<Rightarrow> pstr"

text \<open>
  The rows for Basic Latin and the Russian alphabet, to run the model on concrete
  inputs written in these two scripts.
\<close>

definition lower_cp :: "nat \<Rightarrow> nat" where
  "lower_cp c =
     (if 0x41 \<le> c \<and> c \<le> 0x5A then c + 0x20
      else if 0x410 \<le> c \<and> c \<le> 0x42F then c + 0x20
      else if 0x400 \<le> c \<and> c \<le> 0x40F then c + 0x50
      else c)"

definition ucd_latin_cyrillic :: ucd where
  "ucd_latin_cyrillic =
     \<lparr> u_decimal = (\<lambda>c. if 0x30 \<le> c \<and> c \<le> 0x39 then Some (c - 0x30) else None),
       u_isalnum = (\<lambda>c. (0x30 \<le> c \<and> c \<le> 0x39) \<or> (0x41 \<le> c \<and> c \<le> 0x5A) \<or>
                          (0x61 \<le> c \<and> c \<le> 0x7A) \<or> (0x400 \<le> c \<and> c \<le> 0x45F)),
       u_lower = map lower_cp \<rparr>"

text \<open>
  White space is the same set for \<^verbatim>\<open>str.strip\<close>, \<^verbatim>\<open>str.split\<close> and \<^verbatim>\<open>\s\<close>; it is small
  and written out in full.
\<close>

definition isspace :: "nat \<Rightarrow> bool" where
  "isspace c =
     ((0x09 \<le> c \<and> c \<le> 0x0D) \<or> (0x1C \<le> c \<and> c \<le> 0x20) \<or> c = 0x85 \<or> c = 0xA0 \<or>
      c = 0x1680 \<or> (0x2000 \<le> c \<and> c \<le> 0x200A) \<or> c = 0x2028 \<or> c = 0x2029 \<or>
      c = 0x202F \<or> c = 0x205F \<or> c = 0x3000)"

definition strip :: "pstr \<Rightarrow> pstr" where
  "strip s = rev (dropWhile isspace (rev (dropWhile isspace s)))"

text \<open>\<^verbatim>\<open>s.split()\<close>: the maximal runs of non-space code points, in order.\<close>

fun split_acc :: "pstr \<Rightarrow> pstr \<Rightarrow> pstr list" where
  "split_acc cur [] = (if cur = [] then [] else [rev cur])"
| "split_acc cur (c # cs) =
     (if isspace c then (if cur = [] then split_acc [] cs else rev cur # split_acc [] cs)
      else split_acc (c # cur) cs)"

definition split :: "pstr \<Rightarrow> pstr list" where
  "split s = split_acc [] s"

fun startswith :: "pstr \<Rightarrow> pstr \<Rightarrow> bool" where
  "startswith s [] = True"
| "startswith [] (p # ps) = False"
| "startswith (c # cs) (p # ps) = (c = p \<and> startswith cs ps)"

text \<open>\<^verbatim>\<open>p in s\<close> on strings: \<open>p\<close> occurs in \<open>s\<close> as a contiguous piece.\<close>

fun contains :: "pstr \<Rightarrow> pstr \<Rightarrow> bool" where
  "contains [] p = (p = [])"
| "contains (c # cs) p = (startswith (c # cs) p \<or> contains cs p)"

section \<open>Errors\<close>

text \<open>
  Every exception the modelled code can raise is a value. \<open>InvalidTitle\<close>,
  \<open>InvalidValue\<close> and \<open>InvalidDueDate\<close> are the three \<^verbatim>\<open>ValueError\<close>s the repository
  raises itself (the second carries the rejected input and the allowed values, as its
  message does); \<open>DateRangeError\<close> stands for the \<^verbatim>\<open>ValueError\<close> or \<^verbatim>\<open>OverflowError\<close>
  with which the \<^verbatim>\<open>datetime\<close> library refuses a date or a duration out of its range;
  \<open>PatternError\<close> is \<^verbatim>\<open>re.error\<close>; \<open>IndexError\<close> is the list index out of range.
\<close>

datatype error =
    InvalidTitle
  | InvalidValue pstr "pstr list"
  | InvalidDueDate pstr
  | DateRangeError
  | PatternError
  | IndexError

section \<open>Field normalizer (\<^verbatim>\<open>Task._normalize_value\<close>)\<close>

text \<open>
  \<^verbatim>\<open>rapidfuzz.fuzz.ratio\<close> is the normalized Indel similarity, scaled to 0..100: the
  Indel distance of two strings is the number of insertions and deletions that turn one
  into the other, \<open>len s1 + len s2 - 2 * LCS\<close>, and it is normalized by \<open>len s1 + len s2\<close>
  (two empty strings are at distance 0). The library computes the quotient in floating
  point; the model keeps it as an exact rational.
\<close>

fun lcs_len :: "'a list \<Rightarrow> 'a list \<Rightarrow> nat" where
  "lcs_len [] ys = 0"
| "lcs_len (x # xs) [] = 0"
| "lcs_len (x # xs) (y # ys) =
     (if x = y then Suc (lcs_len xs ys)
      else max (lcs_len (x # xs) ys) (lcs_len xs (y # ys)))"

definition indel_distance :: "pstr \<Rightarrow> pstr \<Rightarrow> nat" where
  "indel_distance s1 s2 = length s1 + length s2 - 2 * lcs_len s1 s2"

definition fuzz_ratio :: "pstr \<Rightarrow> pstr \<Rightarrow> rat" where
  "fuzz_ratio s1 s2 =
     (let maximum = length s1 + length s2;
          norm_dist = (if maximum = 0 then 0
                       else of_nat (indel_distance s1 s2) / of_nat maximum)
      in (1 - norm_dist) * 100)"

text \<open>
  \<^verbatim>\<open>process.extractOne(query, choices, scorer=fuzz.ratio)\<close> with no processor and no
  cutoff: one pass over \<^verbatim>\<open>enumerate(choices)\<close>, keeping the triple (choice, score, index)
  of the best score so far and replacing it only by a strictly better one; \<^verbatim>\<open>None\<close> when
  there is no choice. (The library also stops at a score of 100 and passes the best score
  on as a cutoff; neither changes the triple it returns.)
\<close>

fun extractOne_loop ::
  "pstr \<Rightarrow> (pstr \<times> rat \<times> nat) option \<Rightarrow> nat \<Rightarrow> pstr list \<Rightarrow> (pstr \<times> rat \<times> nat) option" where
  "extractOne_loop query result key [] = result"
| "extractOne_loop query result key (choice # choices) =
     (let score = fuzz_ratio query choice;
          result' = (case result of
                       None \<Rightarrow> Some (choice, score, key)
                     | Some (_, result_score, _) \<Rightarrow>
                         if score > result_score then Some (choice, score, key) else result)
      in extractOne_loop query result' (Suc key) choices)"

definition extractOne :: "pstr \<Rightarrow> pstr list \<Rightarrow> (pstr \<times> rat \<times> nat) option" where
  "extractOne query choices = extractOne_loop query None 0 choices"

definition normalize_value :: "ucd \<Rightarrow> pstr \<Rightarrow> pstr list \<Rightarrow> error + pstr" where
  "normalize_value U input_value valid_values =
     (let input_value = u_lower U (strip input_value) in
      case extractOne input_value valid_values of
        None \<Rightarrow> Inl (InvalidValue input_value valid_values)
      | Some (best_match, score, _) \<Rightarrow>
          if score < 70 then Inl (InvalidValue input_value valid_values)
          else Inr best_match)"

section \<open>Points in time (\<^verbatim>\<open>datetime\<close>)\<close>

text \<open>
  A \<^verbatim>\<open>datetime\<close> is the record of its fields. The calendar arithmetic is the proleptic
  Gregorian one of the library: day ordinals count from 0001-01-01 = 1 up to
  9999-12-31 = 3652059.
\<close>

record datetime =
  year :: nat
  month :: nat
  day :: nat
  hour :: nat
  minute :: nat
  second :: nat
  microsecond :: nat

definition is_leap :: "nat \<Rightarrow> bool" where
  "is_leap y = (y mod 4 = 0 \<and> (y mod 100 \<noteq> 0 \<or> y mod 400 = 0))"

definition days_in_month :: "nat \<Rightarrow> nat \<Rightarrow> nat" where
  "days_in_month y m =
     (if m = 2 \<and> is_leap y then 29
      else [31, 28, 31, 30, 31, 30, 31, 31, 30, 31, 30, 31] ! (m - 1))"

definition days_before_month :: "nat \<Rightarrow> nat \<Rightarrow> nat" where
  "days_before_month y m =
     [0, 31, 59, 90, 120, 151, 181, 212, 243, 273, 304, 334] ! (m - 1) +
     (if m > 2 \<and> is_leap y then 1 else 0)"

definition days_before_year :: "nat \<Rightarrow> nat" where
  "days_before_year y =
     (let y = y - 1 in y * 365 + y div 4 - y div 100 + y div 400)"

definition ymd2ord :: "nat \<Rightarrow> nat \<Rightarrow> nat \<Rightarrow> nat" where
  "ymd2ord y m d = days_before_year y + days_before_month y m + d"

definition ord2ymd :: "nat \<Rightarrow> nat \<times> nat \<times> nat" where
  "ord2ymd n0 =
     (let n = n0 - 1;
          n400 = n div 146097; n = n mod 146097;
          n100 = n div 36524; n = n mod 36524;
          n4 = n div 1461; n = n mod 1461;
          n1 = n div 365; n = n mod 365;
          y = n400 * 400 + 1 + n100 * 100 + n4 * 4 + n1
      in if n1 = 4 \<or> n100 = 4 then (y - 1, 12, 31)
         else
           let leapyear = (n1 = 3 \<and> (n4 \<noteq> 24 \<or> n100 = 3));
               m = (n + 50) div 32;
               preceding = [0, 31, 59, 90, 120, 151, 181, 212, 243, 273, 304, 334] ! (m - 1) +
                           (if m > 2 \<and> leapyear then 1 else 0)
           in if preceding > n
              then let m' = m - 1;
                       preceding' = preceding -
                         ([31, 28, 31, 30, 31, 30, 31, 31, 30, 31, 30, 31] ! (m' - 1) +
                          (if m' = 2 \<and> leapyear then 1 else 0))
                   in (y, m', n - preceding' + 1)
              else (y, m, n - preceding + 1))"

definition valid_datetime :: "datetime \<Rightarrow> bool" where
  "valid_datetime d =
     (1 \<le> year d \<and> year d \<le> 9999 \<and> 1 \<le> month d \<and> month d \<le> 12 \<and>
      1 \<le> day d \<and> day d \<le> days_in_month (year d) (month d) \<and>
      hour d < 24 \<and> minute d < 60 \<and> second d < 60 \<and> microsecond d < 1000000)"

text \<open>
  Durations: the only \<^verbatim>\<open>timedelta\<close>s the program builds are whole, non-negative numbers
  of days, hours and minutes, so a duration is its number of minutes. The library refuses
  a duration of more than 999999999 days.
\<close>

definition timedelta_add :: "nat \<Rightarrow> nat \<Rightarrow> error + nat" where
  "timedelta_add delta mins =
     (if (delta + mins) div 1440 > 999999999 then Inl DateRangeError
      else Inr (delta + mins))"

text \<open>\<^verbatim>\<open>d + delta\<close>: through the day ordinal, refused outside 1..3652059.\<close>

definition datetime_add :: "datetime \<Rightarrow> nat \<Rightarrow> error + datetime" where
  "datetime_add d delta =
     (let total = hour d * 60 + minute d + delta;
          days = ymd2ord (year d) (month d) (day d) + total div 1440;
          rem = total mod 1440
      in if 0 < days \<and> days \<le> 3652059
         then (case ord2ymd days of (y, m, dd) \<Rightarrow>
                 Inr (d\<lparr>year := y, month := m, day := dd,
                         hour := rem div 60, minute := rem mod 60\<rparr>))
         else Inl DateRangeError)"

text \<open>\<^verbatim>\<open>d.replace(year=y, month=m)\<close>: the new fields are checked as a constructor does.\<close>

definition datetime_replace :: "datetime \<Rightarrow> nat \<Rightarrow> nat \<Rightarrow> error + datetime" where
  "datetime_replace d y m =
     (if 1 \<le> y \<and> y \<le> 9999 \<and> 1 \<le> m \<and> m \<le> 12 \<and> day d \<le> days_in_month y m
      then Inr (d\<lparr>year := y, month := m\<rparr>)
      else Inl DateRangeError)"

text \<open>\<^verbatim>\<open>datetime.combine(today.date(), parsed.time())\<close>\<close>

definition combine :: "datetime \<Rightarrow> datetime \<Rightarrow> datetime" where
  "combine today parsed =
     parsed\<lparr>year := year today, month := month today, day := day today\<rparr>"

subsection \<open>Decimal rendering\<close>

fun dec :: "nat \<Rightarrow> pstr" where
  "dec n = (if n < 10 then [0x30 + n] else dec (n div 10) @ [0x30 + n mod 10])"

declare dec.simps [simp del]

definition zfill :: "nat \<Rightarrow> pstr \<Rightarrow> pstr" where
  "zfill w s = replicate (w - length s) 0x30 @ s"

text \<open>\<^verbatim>\<open>str(i)\<close> of an integer.\<close>

definition str_int :: "int \<Rightarrow> pstr" where
  "str_int i = (if i < 0 then 0x2D # dec (nat (- i)) else dec (nat i))"

text \<open>
  \<^verbatim>\<open>d.strftime('%Y-%m-%d %H:%M')\<close>. The call goes to the platform's \<^verbatim>\<open>strftime\<close>;
  on Linux (glibc) \<^verbatim>\<open>%Y\<close> is the year in decimal without padding, so a year below 1000
  has fewer than four digits. The other four fields are padded to two digits.
\<close>

definition strftime :: "datetime \<Rightarrow> pstr" where
  "strftime d =
     dec (year d) @ [0x2D] @ zfill 2 (dec (month d)) @ [0x2D] @
     zfill 2 (dec (day d)) @ [0x20] @ zfill 2 (dec (hour d)) @ [0x3A] @
     zfill 2 (dec (minute d))"

text \<open>
  \<^verbatim>\<open>str(d)\<close>: the ISO form with a space between date and time, seconds always, and the
  microseconds only when they are not zero.
\<close>

definition str_datetime :: "datetime \<Rightarrow> pstr" where
  "str_datetime d =
     zfill 4 (dec (year d)) @ [0x2D] @ zfill 2 (dec (month d)) @ [0x2D] @
     zfill 2 (dec (day d)) @ [0x20] @ zfill 2 (dec (hour d)) @ [0x3A] @
     zfill 2 (dec (minute d)) @ [0x3A] @ zfill 2 (dec (second d)) @
     (if microsecond d \<noteq> 0 then 0x2E # zfill 6 (dec (microsecond d)) else [])"

section \<open>Due-date parser (\<^verbatim>\<open>Task._parse_due_date\<close>)\<close>

subsection \<open>\<^verbatim>\<open>datetime.strptime\<close> on the four formats\<close>

text \<open>
  \<^verbatim>\<open>strptime\<close> turns a format into a regular expression, one group per directive, and
  matches it at the start of the text (ignoring case); the text must then be used up.
  The groups are, in the library's order of alternatives,
  \<^verbatim>\<open>%Y\<close>: \<^verbatim>\<open>\d\d\d\d\<close>;
  \<^verbatim>\<open>%m\<close>: \<^verbatim>\<open>1[0-2]|0[1-9]|[1-9]\<close>;
  \<^verbatim>\<open>%d\<close>: \<^verbatim>\<open>3[0-1]|[1-2]\d|0[1-9]|[1-9]| [1-9]\<close>;
  \<^verbatim>\<open>%H\<close>: \<^verbatim>\<open>2[0-3]|[0-1]\d|\d\<close>;
  \<^verbatim>\<open>%M\<close>: \<^verbatim>\<open>[0-5]\d|\d\<close>;
  \<^verbatim>\<open>%S\<close>: \<^verbatim>\<open>6[0-1]|[0-5]\d|\d\<close>;
  white space in the format is \<^verbatim>\<open>\s+\<close>; any other character stands for itself.
  A format is the list of its items; an item offers its ways to match a prefix of the
  text (matched piece and rest), best first, and the matcher backtracks over them.
\<close>

datatype fmt_item = DY | Dm | Dd | DH | DM | DS | Lit "nat list" | Ws

definition is_digit :: "ucd \<Rightarrow> nat \<Rightarrow> bool" where
  "is_digit U c = (u_decimal U c \<noteq> None)"

definition rng :: "nat \<Rightarrow> nat \<Rightarrow> nat \<Rightarrow> bool" where
  "rng lo hi c = (lo \<le> c \<and> c \<le> hi)"

definition alt1 :: "(nat \<Rightarrow> bool) \<Rightarrow> pstr \<Rightarrow> (pstr \<times> pstr) list" where
  "alt1 p s = (case s of a # r \<Rightarrow> if p a then [([a], r)] else [] | [] \<Rightarrow> [])"

definition alt2 :: "(nat \<Rightarrow> bool) \<Rightarrow> (nat \<Rightarrow> bool) \<Rightarrow> pstr \<Rightarrow> (pstr \<times> pstr) list" where
  "alt2 p1 p2 s =
     (case s of a # b # r \<Rightarrow> if p1 a \<and> p2 b then [([a, b], r)] else [] | _ \<Rightarrow> [])"

text \<open>\<^verbatim>\<open>\s+\<close>: every non-empty prefix of the run of white space, the longest first.\<close>

fun ws_alts :: "pstr \<Rightarrow> pstr \<Rightarrow> (pstr \<times> pstr) list" where
  "ws_alts taken [] = []"
| "ws_alts taken (c # cs) =
     (if isspace c then ws_alts (taken @ [c]) cs @ [(taken @ [c], cs)] else [])"

definition item_alts :: "ucd \<Rightarrow> fmt_item \<Rightarrow> pstr \<Rightarrow> (pstr \<times> pstr) list" where
  "item_alts U it s =
     (case it of
        DY \<Rightarrow> (case s of a # b # c # d # r \<Rightarrow>
                  if is_digit U a \<and> is_digit U b \<and> is_digit U c \<and> is_digit U d
                  then [([a, b, c, d], r)] else []
                | _ \<Rightarrow> [])
      | Dm \<Rightarrow> alt2 (rng 0x31 0x31) (rng 0x30 0x32) s @ alt2 (rng 0x30 0x30) (rng 0x31 0x39) s @
              alt1 (rng 0x31 0x39) s
      | Dd \<Rightarrow> alt2 (rng 0x33 0x33) (rng 0x30 0x31) s @ alt2 (rng 0x31 0x32) (is_digit U) s @
              alt2 (rng 0x30 0x30) (rng 0x31 0x39) s @ alt1 (rng 0x31 0x39) s @
              alt2 (rng 0x20 0x20) (rng 0x31 0x39) s
      | DH \<Rightarrow> alt2 (rng 0x32 0x32) (rng 0x30 0x33) s @ alt2 (rng 0x30 0x31) (is_digit U) s @
              alt1 (is_digit U) s
      | DM \<Rightarrow> alt2 (rng 0x30 0x35) (is_digit U) s @ alt1 (is_digit U) s
      | DS \<Rightarrow> alt2 (rng 0x36 0x36) (rng 0x30 0x31) s @ alt2 (rng 0x30 0x35) (is_digit U) s @
              alt1 (is_digit U) s
      | Lit cs \<Rightarrow> alt1 (\<lambda>c. c \<in> set cs) s
      | Ws \<Rightarrow> ws_alts [] s)"

fun re_match :: "ucd \<Rightarrow> fmt_item list \<Rightarrow> pstr \<Rightarrow> (pstr list \<times> pstr) option"
and try_alts :: "ucd \<Rightarrow> fmt_item list \<Rightarrow> (pstr \<times> pstr) list \<Rightarrow> (pstr list \<times> pstr) option" where
  "re_match U [] s = Some ([], s)"
| "re_match U (it # its) s = try_alts U its (item_alts U it s)"
| "try_alts U its [] = None"
| "try_alts U its ((g, r) # alts) =
     (case re_match U its r of
        Some (gs, r') \<Rightarrow> Some (g # gs, r')
      | None \<Rightarrow> try_alts U its alts)"

text \<open>
  \<^verbatim>\<open>int(group)\<close>: the decimal value of the digits of the group (the one leading space
  that \<^verbatim>\<open>%d\<close> admits is skipped, as \<^verbatim>\<open>int\<close> skips it).
\<close>

definition py_int :: "ucd \<Rightarrow> pstr \<Rightarrow> nat" where
  "py_int U g =
     foldl (\<lambda>a c. case u_decimal U c of Some v \<Rightarrow> 10 * a + v | None \<Rightarrow> a) 0 g"

fun set_fields :: "ucd \<Rightarrow> fmt_item list \<Rightarrow> pstr list \<Rightarrow> datetime \<Rightarrow> datetime" where
  "set_fields U (it # its) (g # gs) d =
     set_fields U its gs
       (case it of
          DY \<Rightarrow> d\<lparr>year := py_int U g\<rparr>
        | Dm \<Rightarrow> d\<lparr>month := py_int U g\<rparr>
        | Dd \<Rightarrow> d\<lparr>day := py_int U g\<rparr>
        | DH \<Rightarrow> d\<lparr>hour := py_int U g\<rparr>
        | DM \<Rightarrow> d\<lparr>minute := py_int U g\<rparr>
        | DS \<Rightarrow> d\<lparr>second := py_int U g\<rparr>
        | _ \<Rightarrow> d)"
| "set_fields U _ _ d = d"

text \<open>
  The fields a format does not give default to 1900-01-01 00:00:00. \<^verbatim>\<open>None\<close> is the
  \<^verbatim>\<open>ValueError\<close> of \<^verbatim>\<open>strptime\<close>: no match, text left over, or fields that are no date
  (year 0, a day the month does not have, second 60 or 61).
\<close>

definition strptime :: "ucd \<Rightarrow> pstr \<Rightarrow> fmt_item list \<Rightarrow> datetime option" where
  "strptime U data_string fmt =
     (case re_match U fmt data_string of
        None \<Rightarrow> None
      | Some (gs, rest) \<Rightarrow>
          if rest \<noteq> [] then None
          else let d = set_fields U fmt gs
                         \<lparr>year = 1900, month = 1, day = 1, hour = 0, minute = 0,
                          second = 0, microsecond = 0\<rparr>
               in if valid_datetime d then Some d else None)"

text \<open>
  The four formats of the source, in its order: \<^verbatim>\<open>"%Y-%m-%d"\<close>, \<^verbatim>\<open>"%Y-%m-%d %H:%M"\<close>,
  \<^verbatim>\<open>"%H:%M"\<close>, \<^verbatim>\<open>"%Y-%m-%dT%H:%M:%S"\<close> (the letter T matches in either case).
\<close>

definition fmt_date :: "fmt_item list" where
  "fmt_date = [DY, Lit [0x2D], Dm, Lit [0x2D], Dd]"

definition fmt_date_time :: "fmt_item list" where
  "fmt_date_time = [DY, Lit [0x2D], Dm, Lit [0x2D], Dd, Ws, DH, Lit [0x3A], DM]"

definition fmt_time :: "fmt_item list" where
  "fmt_time = [DH, Lit [0x3A], DM]"

definition fmt_iso :: "fmt_item list" where
  "fmt_iso = [DY, Lit [0x2D], Dm, Lit [0x2D], Dd, Lit [0x54, 0x74], DH, Lit [0x3A], DM,
              Lit [0x3A], DS]"

definition date_formats :: "fmt_item list list" where
  "date_formats = [fmt_date, fmt_date_time, fmt_time, fmt_iso]"

text \<open>
  The loop over the formats: the first one that parses wins; a time alone is combined
  with the date of \<open>now\<close>.
\<close>

fun try_formats :: "ucd \<Rightarrow> datetime \<Rightarrow> pstr \<Rightarrow> fmt_item list list \<Rightarrow> datetime option" where
  "try_formats U now due_date [] = None"
| "try_formats U now due_date (date_format # rest) =
     (case strptime U due_date date_format of
        Some parsed_date \<Rightarrow>
          Some (if date_format = fmt_time then combine now parsed_date else parsed_date)
      | None \<Rightarrow> try_formats U now due_date rest)"

subsection \<open>Relative expressions\<close>

text \<open>The table \<^verbatim>\<open>units\<close> of the source, in its order.\<close>

definition units :: "(pstr \<times> pstr list) list" where
  "units =
     [(asc ''year'', [asc ''year'', asc ''years'', asc ''y'',
                      [0x433, 0x43E, 0x434], [0x433, 0x43E, 0x434, 0x44B]]),
      (asc ''month'', [asc ''month'', asc ''months'', asc ''mo'',
                       [0x43C, 0x435, 0x441, 0x44F, 0x446],
                       [0x43C, 0x435, 0x441, 0x44F, 0x446, 0x44B]]),
      (asc ''day'', [asc ''day'', asc ''days'', asc ''d'',
                     [0x434, 0x435, 0x43D, 0x44C], [0x434, 0x43D, 0x438]]),
      (asc ''hour'', [asc ''hour'', asc ''hours'', asc ''h'',
                      [0x447, 0x430, 0x441], [0x447, 0x430, 0x441, 0x44B]]),
      (asc ''minute'', [asc ''minute'', asc ''minutes'', asc ''m'',
                        [0x43C, 0x438, 0x43D, 0x443, 0x442, 0x430],
                        [0x43C, 0x438, 0x43D, 0x443, 0x442, 0x44B]])]"

definition units_of :: "string \<Rightarrow> pstr list" where
  "units_of k = (case map_of units (asc k) of Some l \<Rightarrow> l | None \<Rightarrow> [])"

definition all_units :: "pstr list" where
  "all_units = concat (map snd units)"

text \<open>
  \<^verbatim>\<open>re.match(r"(\d+)\s*(\w+)", part)\<close>: a match at the start of \<open>part\<close>, not
  necessarily up to its end. The three greedy pieces give back what they took, the
  last taken first: the digits keep at least one, the white space may shrink to nothing,
  and the word takes all the word characters it finds, at least one.
\<close>

definition is_word :: "ucd \<Rightarrow> nat \<Rightarrow> bool" where
  "is_word U c = (u_isalnum U c \<or> c = 0x5F)"

fun try_space :: "ucd \<Rightarrow> pstr \<Rightarrow> nat \<Rightarrow> pstr option" where
  "try_space U rest j =
     (case takeWhile (is_word U) (drop j rest) of
        [] \<Rightarrow> (case j of 0 \<Rightarrow> None | Suc j' \<Rightarrow> try_space U rest j')
      | w # ws \<Rightarrow> Some (w # ws))"

fun try_digits :: "ucd \<Rightarrow> pstr \<Rightarrow> nat \<Rightarrow> (pstr \<times> pstr) option" where
  "try_digits U part 0 = None"
| "try_digits U part (Suc k) =
     (let rest = drop (Suc k) part in
      case try_space U rest (length (takeWhile isspace rest)) of
        Some w \<Rightarrow> Some (take (Suc k) part, w)
      | None \<Rightarrow> try_digits U part k)"

definition match_part :: "ucd \<Rightarrow> pstr \<Rightarrow> (pstr \<times> pstr) option" where
  "match_part U part = try_digits U part (length (takeWhile (is_digit U) part))"

text \<open>The variables of the loop over the parts.\<close>

record rel_state =
  delta :: nat
  extra_months :: nat
  extra_years :: nat
  match_bool :: bool

definition add_unit :: "rel_state \<Rightarrow> nat \<Rightarrow> pstr \<Rightarrow> error + rel_state" where
  "add_unit st v normalized_unit =
     (if normalized_unit \<in> set (units_of ''year'') then
        Inr (st\<lparr>extra_years := extra_years st + v\<rparr>)
      else if normalized_unit \<in> set (units_of ''month'') then
        Inr (st\<lparr>extra_months := extra_months st + v\<rparr>)
      else if normalized_unit \<in> set (units_of ''day'') then
        (case timedelta_add (delta st) (v * 1440) of
           Inl e \<Rightarrow> Inl e | Inr dl \<Rightarrow> Inr (st\<lparr>delta := dl\<rparr>))
      else if normalized_unit \<in> set (units_of ''hour'') then
        (case timedelta_add (delta st) (v * 60) of
           Inl e \<Rightarrow> Inl e | Inr dl \<Rightarrow> Inr (st\<lparr>delta := dl\<rparr>))
      else if normalized_unit \<in> set (units_of ''minute'') then
        (case timedelta_add (delta st) v of
           Inl e \<Rightarrow> Inl e | Inr dl \<Rightarrow> Inr (st\<lparr>delta := dl\<rparr>))
      else Inr st)"

fun parse_parts :: "ucd \<Rightarrow> rel_state \<Rightarrow> pstr list \<Rightarrow> error + rel_state" where
  "parse_parts U st [] = Inr st"
| "parse_parts U st (part # parts) =
     (case match_part U part of
        None \<Rightarrow> parse_parts U st parts
      | Some (g1, g2) \<Rightarrow>
          (case normalize_value U (u_lower U g2) all_units of
             Inl e \<Rightarrow> Inl e
           | Inr normalized_unit \<Rightarrow>
               (case add_unit (st\<lparr>match_bool := True\<rparr>) (py_int U g1) normalized_unit of
                  Inl e \<Rightarrow> Inl e
                | Inr st' \<Rightarrow> parse_parts U st' parts)))"

text \<open>\<^verbatim>\<open>while month > 12: month -= 12; year += 1\<close>\<close>

function carry_months :: "nat \<Rightarrow> nat \<Rightarrow> nat \<times> nat" where
  "carry_months y m = (if m > 12 then carry_months (y + 1) (m - 12) else (y, m))"
  by pat_completeness auto
termination
  by (relation "measure (\<lambda>(y, m). m)") auto

declare carry_months.simps [simp del]

definition parse_relative :: "ucd \<Rightarrow> datetime \<Rightarrow> pstr \<Rightarrow> error + datetime" where
  "parse_relative U now due_date =
     (case parse_parts U \<lparr>delta = 0, extra_months = 0, extra_years = 0, match_bool = False\<rparr>
             (split due_date) of
        Inl e \<Rightarrow> Inl e
      | Inr st \<Rightarrow>
          if \<not> match_bool st then Inl (InvalidDueDate due_date)
          else (case datetime_add now (delta st) of
                  Inl e \<Rightarrow> Inl e
                | Inr future_date \<Rightarrow>
                    if extra_months st \<noteq> 0 \<or> extra_years st \<noteq> 0
                    then (case carry_months (year future_date + extra_years st)
                                 (month future_date + extra_months st) of
                            (y, m) \<Rightarrow> datetime_replace future_date y m)
                    else Inr future_date))"

text \<open>
  \<open>now\<close> is what \<^verbatim>\<open>datetime.now()\<close> returns; each path through the function reads the
  clock once.
\<close>

definition parse_due_date :: "ucd \<Rightarrow> datetime \<Rightarrow> pstr option \<Rightarrow> error + datetime" where
  "parse_due_date U now due_date =
     (case due_date of
        None \<Rightarrow> Inr now
      | Some s \<Rightarrow>
          (case try_formats U now s date_formats of
             Some d \<Rightarrow> Inr d
           | None \<Rightarrow> parse_relative U now s))"

section \<open>Task entity (\<^verbatim>\<open>Task\<close>)\<close>

text \<open>The three closed vocabularies, as the constructor and \<^verbatim>\<open>update_task\<close> spell them.\<close>

definition categories :: "pstr list" where
  "categories =
     [[0x443, 0x447, 0x435, 0x431, 0x430],
      [0x440, 0x430, 0x431, 0x43E, 0x442, 0x430],
      [0x43B, 0x438, 0x447, 0x43D, 0x43E, 0x435],
      [0x434, 0x43E, 0x441, 0x443, 0x433],
      [0x434, 0x440, 0x443, 0x433, 0x43E, 0x435]]"

definition priorities :: "pstr list" where
  "priorities =
     [[0x432, 0x44B, 0x441, 0x43E, 0x43A, 0x438, 0x439],
      [0x441, 0x440, 0x435, 0x434, 0x43D, 0x438, 0x439],
      [0x43D, 0x438, 0x437, 0x43A, 0x438, 0x439],
      [0x43E, 0x442, 0x441, 0x443, 0x442, 0x441, 0x442, 0x432, 0x443, 0x435, 0x442]]"

definition statuses :: "pstr list" where
  "statuses =
     [[0x432, 0x44B, 0x43F, 0x43E, 0x43B, 0x43D, 0x435, 0x43D, 0x430],
      [0x43D, 0x435, 0x20, 0x432, 0x44B, 0x43F, 0x43E, 0x43B, 0x43D, 0x435, 0x43D, 0x430],
      [0x432, 0x20, 0x43F, 0x440, 0x43E, 0x446, 0x435, 0x441, 0x441, 0x435]]"

record task =
  tid :: int
  title :: pstr
  description :: pstr
  category :: pstr
  due_date :: datetime
  priority :: pstr
  status :: pstr

text \<open>
  The raw fields a task is built from: the keyword arguments of the constructor, which
  are also the fields of a persisted record. \<open>None\<close> is Python's \<^verbatim>\<open>None\<close> (for the
  description of a record also the missing key).
\<close>

record task_data =
  d_id :: "int option"
  d_title :: pstr
  d_description :: "pstr option"
  d_category :: pstr
  d_due_date :: "pstr option"
  d_priority :: pstr
  d_status :: pstr

text \<open>
  The title check \<^verbatim>\<open>re.match\<close> of the constructor: the first character is in one of
  the five ranges of the character class, A-Z, a-z, U+0410-U+042F, U+0430-U+044F
  (the Russian capital and small letters but U+0401 and U+0451) and 0-9.
\<close>

definition title_ok :: "pstr \<Rightarrow> bool" where
  "title_ok t =
     (case t of
        [] \<Rightarrow> False
      | c # _ \<Rightarrow> rng 0x41 0x5A c \<or> rng 0x61 0x7A c \<or> rng 0x410 0x42F c \<or>
                 rng 0x430 0x44F c \<or> rng 0x30 0x39 c)"

text \<open>
  The constructor. The class variable \<^verbatim>\<open>Task._id_counter\<close> is passed in and returned;
  a constructor that raises leaves it as it was, since the id is assigned last.
\<close>

definition Task_init :: "ucd \<Rightarrow> datetime \<Rightarrow> int \<Rightarrow> task_data \<Rightarrow> error + (task \<times> int)" where
  "Task_init U now id_counter a =
     (if \<not> title_ok (d_title a) then Inl InvalidTitle
      else
        case normalize_value U (d_category a) categories of
          Inl e \<Rightarrow> Inl e
        | Inr cat \<Rightarrow>
        case normalize_value U (d_priority a) priorities of
          Inl e \<Rightarrow> Inl e
        | Inr pri \<Rightarrow>
        case normalize_value U (d_status a) statuses of
          Inl e \<Rightarrow> Inl e
        | Inr sta \<Rightarrow>
        case parse_due_date U now (d_due_date a) of
          Inl e \<Rightarrow> Inl e
        | Inr due \<Rightarrow>
            let t = \<lparr>tid = 0, title = d_title a,
                     description = (case d_description a of None \<Rightarrow> [] | Some s \<Rightarrow> s),
                     category = cat, due_date = due, priority = pri, status = sta\<rparr>
            in case d_id a of
                 None \<Rightarrow> Inr (t\<lparr>tid := id_counter\<rparr>, id_counter + 1)
               | Some i \<Rightarrow> Inr (t\<lparr>tid := i\<rparr>, max i id_counter + 1))"

definition to_dict :: "task \<Rightarrow> task_data" where
  "to_dict t =
     \<lparr>d_id = Some (tid t), d_title = title t, d_description = Some (description t),
      d_category = category t, d_due_date = Some (strftime (due_date t)),
      d_priority = priority t, d_status = status t\<rparr>"

section \<open>Task store (\<^verbatim>\<open>TaskManager\<close>)\<close>

text \<open>
  The state the operations work on: the class counter of \<^verbatim>\<open>Task\<close>, the list
  \<^verbatim>\<open>self.tasks\<close>, and the records in the backing file. Every operation returns the
  state it leaves; an operation that raises returns its error with that state.
\<close>

record state =
  id_counter :: int
  tasks :: "task list"
  json_file :: "task_data list"

definition save_tasks :: "state \<Rightarrow> state" where
  "save_tasks st = st\<lparr>json_file := map to_dict (tasks st)\<rparr>"

text \<open>
  \<^verbatim>\<open>_load_tasks\<close> on the records of a readable file: one constructor call per record,
  each with its own reading of the clock, stopping at the first that raises.
\<close>

fun load_tasks ::
  "ucd \<Rightarrow> (nat \<Rightarrow> datetime) \<Rightarrow> int \<Rightarrow> task_data list \<Rightarrow> error + (task list \<times> int)" where
  "load_tasks U clock c [] = Inr ([], c)"
| "load_tasks U clock c (task_data # data) =
     (case Task_init U (clock 0) c task_data of
        Inl e \<Rightarrow> Inl e
      | Inr (t, c') \<Rightarrow>
          (case load_tasks U (\<lambda>i. clock (Suc i)) c' data of
             Inl e \<Rightarrow> Inl e
           | Inr (ts, c'') \<Rightarrow> Inr (t # ts, c'')))"

definition add_task :: "ucd \<Rightarrow> datetime \<Rightarrow> state \<Rightarrow> task_data \<Rightarrow> error option \<times> state" where
  "add_task U now st a =
     (case Task_init U now (id_counter st) (a\<lparr>d_id := None\<rparr>) of
        Inl e \<Rightarrow> (Some e, st)
      | Inr (t, c) \<Rightarrow> (None, save_tasks (st\<lparr>id_counter := c, tasks := tasks st @ [t]\<rparr>)))"

text \<open>\<^verbatim>\<open>if task_id:\<close> holds for an integer that is neither \<^verbatim>\<open>None\<close> nor 0.\<close>

definition remove_task :: "state \<Rightarrow> int option \<Rightarrow> state" where
  "remove_task st task_id =
     save_tasks
       (case task_id of
          None \<Rightarrow> st
        | Some i \<Rightarrow> if i \<noteq> 0 then st\<lparr>tasks := filter (\<lambda>t. tid t \<noteq> i) (tasks st)\<rparr> else st)"

subsection \<open>\<^verbatim>\<open>update_task\<close>\<close>

record updates =
  new_title :: "pstr option"
  new_description :: "pstr option"
  new_category :: "pstr option"
  new_due_date :: "pstr option"
  new_priority :: "pstr option"
  new_status :: "pstr option"

text \<open>\<^verbatim>\<open>if x:\<close> on an optional string: neither \<^verbatim>\<open>None\<close> nor empty.\<close>

definition given :: "pstr option \<Rightarrow> pstr option" where
  "given x = (case x of None \<Rightarrow> None | Some s \<Rightarrow> if s = [] then None else Some s)"

definition set_title :: "updates \<Rightarrow> task \<Rightarrow> error + task" where
  "set_title u t = (case given (new_title u) of None \<Rightarrow> Inr t | Some s \<Rightarrow> Inr (t\<lparr>title := s\<rparr>))"

definition set_description :: "updates \<Rightarrow> task \<Rightarrow> error + task" where
  "set_description u t =
     (case given (new_description u) of None \<Rightarrow> Inr t | Some s \<Rightarrow> Inr (t\<lparr>description := s\<rparr>))"

definition set_category :: "ucd \<Rightarrow> updates \<Rightarrow> task \<Rightarrow> error + task" where
  "set_category U u t =
     (case given (new_category u) of
        None \<Rightarrow> Inr t
      | Some s \<Rightarrow> (case normalize_value U s categories of
                     Inl e \<Rightarrow> Inl e | Inr v \<Rightarrow> Inr (t\<lparr>category := v\<rparr>)))"

definition set_due_date :: "ucd \<Rightarrow> datetime \<Rightarrow> updates \<Rightarrow> task \<Rightarrow> error + task" where
  "set_due_date U now u t =
     (case given (new_due_date u) of
        None \<Rightarrow> Inr t
      | Some s \<Rightarrow> (case parse_due_date U now (Some s) of
                     Inl e \<Rightarrow> Inl e | Inr v \<Rightarrow> Inr (t\<lparr>due_date := v\<rparr>)))"

definition set_priority :: "ucd \<Rightarrow> updates \<Rightarrow> task \<Rightarrow> error + task" where
  "set_priority U u t =
     (case given (new_priority u) of
        None \<Rightarrow> Inr t
      | Some s \<Rightarrow> (case normalize_value U s priorities of
                     Inl e \<Rightarrow> Inl e | Inr v \<Rightarrow> Inr (t\<lparr>priority := v\<rparr>)))"

definition set_status :: "ucd \<Rightarrow> updates \<Rightarrow> task \<Rightarrow> error + task" where
  "set_status U u t =
     (case given (new_status u) of
        None \<Rightarrow> Inr t
      | Some s \<Rightarrow> (case normalize_value U s statuses of
                     Inl e \<Rightarrow> Inl e | Inr v \<Rightarrow> Inr (t\<lparr>status := v\<rparr>)))"

text \<open>
  The six assignments run in the order of the source on the task object itself. When
  one raises, the object keeps what the earlier ones assigned: the result is the error
  together with the task as it then stands.
\<close>

fun run_steps :: "(task \<Rightarrow> error + task) list \<Rightarrow> task \<Rightarrow> error option \<times> task" where
  "run_steps [] t = (None, t)"
| "run_steps (f # fs) t = (case f t of Inl e \<Rightarrow> (Some e, t) | Inr t' \<Rightarrow> run_steps fs t')"

definition update_fields :: "ucd \<Rightarrow> datetime \<Rightarrow> updates \<Rightarrow> task \<Rightarrow> error option \<times> task" where
  "update_fields U now u t =
     run_steps [set_title u, set_description u, set_category U u, set_due_date U now u,
                set_priority U u, set_status U u] t"

text \<open>
  The loop over \<^verbatim>\<open>self.tasks\<close>: the first task with the id is updated in place, the file
  is saved and the loop ends; with no such task nothing happens. The result is the error
  (if any), the list as it stands, and whether the save was reached.
\<close>

fun update_loop ::
  "ucd \<Rightarrow> datetime \<Rightarrow> int \<Rightarrow> updates \<Rightarrow> task list \<Rightarrow> error option \<times> task list \<times> bool" where
  "update_loop U now task_id u [] = (None, [], False)"
| "update_loop U now task_id u (t # ts) =
     (if tid t = task_id
      then (case update_fields U now u t of
              (Some e, t') \<Rightarrow> (Some e, t' # ts, False)
            | (None, t') \<Rightarrow> (None, t' # ts, True))
      else (case update_loop U now task_id u ts of
              (e, ts', saved) \<Rightarrow> (e, t # ts', saved)))"

definition update_task ::
  "ucd \<Rightarrow> datetime \<Rightarrow> state \<Rightarrow> int \<Rightarrow> updates \<Rightarrow> error option \<times> state" where
  "update_task U now st task_id u =
     (case update_loop U now task_id u (tasks st) of
        (e, ts, saved) \<Rightarrow>
          (e, if saved then save_tasks (st\<lparr>tasks := ts\<rparr>) else st\<lparr>tasks := ts\<rparr>))"

subsection \<open>Search\<close>

text \<open>
  \<^verbatim>\<open>str(getattr(task, field, ""))\<close>. The seven attributes a task object carries and
  the class counter render as their values. Every other name is answered by the
  interpreter: the empty default when the object has no such attribute, and the
  interpreter's own text for a method or a special attribute (\<^verbatim>\<open>to_dict\<close>,
  \<^verbatim>\<open>__class__\<close>, ...), which may show the identity of the object. That answer is the
  parameter \<open>A\<close>, asked with the position of the task in the store (standing for the
  identity of the object) and the name.
\<close>

type_synonym attrs = "nat \<Rightarrow> pstr \<Rightarrow> pstr"

definition task_attr :: "attrs \<Rightarrow> int \<Rightarrow> nat \<Rightarrow> task \<Rightarrow> pstr \<Rightarrow> pstr" where
  "task_attr A counter i t field =
     (if field = asc ''id'' then str_int (tid t)
      else if field = asc ''title'' then title t
      else if field = asc ''description'' then description t
      else if field = asc ''category'' then category t
      else if field = asc ''due_date'' then str_datetime (due_date t)
      else if field = asc ''priority'' then priority t
      else if field = asc ''status'' then status t
      else if field = asc ''_id_counter'' then str_int counter
      else A i field)"

text \<open>
  A list comprehension whose condition may look at the identity of the task: the
  tasks, in the order of the store, whose position and value pass the test.
\<close>

definition select :: "(nat \<Rightarrow> task \<Rightarrow> bool) \<Rightarrow> task list \<Rightarrow> task list" where
  "select p ts = map snd (filter (\<lambda>(i, t). p i t) (enumerate 0 ts))"

text \<open>
  The \<^verbatim>\<open>re\<close> module is a parameter: \<open>R pattern\<close> is \<open>None\<close> when the pattern does not
  compile (\<^verbatim>\<open>re.error\<close>), and otherwise the predicate "\<^verbatim>\<open>re.search(pattern, s)\<close> finds a
  match". The pattern is compiled when the first field of the first task is searched, so
  an empty store raises nothing.
\<close>

type_synonym regex = "pstr \<Rightarrow> (pstr \<Rightarrow> bool) option"

definition search_by_regex :: "regex \<Rightarrow> state \<Rightarrow> pstr \<Rightarrow> error + task list" where
  "search_by_regex R st pattern =
     (if tasks st = [] then Inr []
      else case R pattern of
             None \<Rightarrow> Inl PatternError
           | Some found \<Rightarrow>
               Inr (filter (\<lambda>t. found (title t) \<or> found (description t) \<or>
                                found (category t) \<or> found (status t)) (tasks st)))"

definition search_by_prefix :: "attrs \<Rightarrow> state \<Rightarrow> pstr \<Rightarrow> pstr option \<Rightarrow> task list" where
  "search_by_prefix A st pre field =
     (case given field of
        Some f \<Rightarrow>
          select (\<lambda>i t. startswith (task_attr A (id_counter st) i t f) pre) (tasks st)
      | None \<Rightarrow>
          filter (\<lambda>t. startswith (title t) pre \<or> startswith (description t) pre \<or>
                      startswith (category t) pre \<or> startswith (status t) pre \<or>
                      startswith (str_int (tid t)) pre \<or>
                      startswith (str_datetime (due_date t)) pre) (tasks st))"

definition search_by_term :: "attrs \<Rightarrow> state \<Rightarrow> pstr \<Rightarrow> pstr option \<Rightarrow> task list" where
  "search_by_term A st search_term field =
     (case given field of
        Some f \<Rightarrow>
          select (\<lambda>i t. contains (task_attr A (id_counter st) i t f) search_term) (tasks st)
      | None \<Rightarrow>
          filter (\<lambda>t. contains (title t) search_term \<or> contains (description t) search_term \<or>
                      contains (category t) search_term \<or> contains (status t) search_term \<or>
                      contains (str_datetime (due_date t)) search_term) (tasks st))"

definition search_by_id :: "attrs \<Rightarrow> state \<Rightarrow> int \<Rightarrow> error + task" where
  "search_by_id A st task_id =
     (case search_by_prefix A st (str_int task_id) (Some (asc ''id'')) of
        [] \<Rightarrow> Inl IndexError
      | t # _ \<Rightarrow> Inr t)"

text \<open>\<^verbatim>\<open>search_term[1:-1]\<close> is \<open>butlast (tl search_term)\<close>; \<^verbatim>\<open>search_term[1:]\<close> is \<open>tl\<close>.\<close>

definition search_tasks ::
  "regex \<Rightarrow> attrs \<Rightarrow> state \<Rightarrow> pstr \<Rightarrow> pstr option \<Rightarrow> error + task list" where
  "search_tasks R A st search_term field =
     (if startswith search_term (asc ''/'') then
        search_by_regex R st (butlast (tl search_term))
      else if startswith search_term (asc ''^'') then
        Inr (search_by_prefix A st (tl search_term) field)
      else Inr (search_by_term A st search_term field))"

text \<open>
  A run of \<^verbatim>\<open>add_task\<close> calls, one per element, each with its own reading of the
  clock; a call that raises leaves the state as it was and the run goes on, as the loop
  of the interactive shell does.
\<close>

fun add_tasks :: "ucd \<Rightarrow> (nat \<Rightarrow> datetime) \<Rightarrow> state \<Rightarrow> task_data list \<Rightarrow> state" where
  "add_tasks U clock st [] = st"
| "add_tasks U clock st (a # as) =
     add_tasks U (\<lambda>i. clock (Suc i)) (snd (add_task U (clock 0) st a)) as"

section \<open>Sample values\<close>

text \<open>
  \<^verbatim>\<open>Task(title=t)\<close> with the defaults of the signature, and one reading of the clock.
\<close>

definition title_only :: "pstr \<Rightarrow> task_data" where
  "title_only t =
     \<lparr>d_id = None, d_title = t, d_description = Some [],
      d_category = [0x434, 0x440, 0x443, 0x433, 0x43E, 0x435], d_due_date = None,
      d_priority = [0x43E, 0x442, 0x441, 0x443, 0x442, 0x441, 0x442, 0x432, 0x443, 0x435, 0x442],
      d_status = [0x432, 0x20, 0x43F, 0x440, 0x43E, 0x446, 0x435, 0x441, 0x441, 0x435]\<rparr>"

definition sample_now :: datetime where
  "sample_now =
     \<lparr>year = 2024, month = 11, day = 3, hour = 10, minute = 0, second = 0, microsecond = 0\<rparr>"

text \<open>The task \<^verbatim>\<open>Task(title="Task 1", id=1)\<close> built at \<open>sample_now\<close>.\<close>

definition sample_task :: task where
  "sample_task =
     \<lparr>tid = 1, title = asc ''Task 1'', description = [],
      category = [0x434, 0x440, 0x443, 0x433, 0x43E, 0x435], due_date = sample_now,
      priority = [0x43E, 0x442, 0x441, 0x443, 0x442, 0x441, 0x442, 0x432, 0x443, 0x435, 0x442],
      status = [0x432, 0x20, 0x43F, 0x440, 0x43E, 0x446, 0x435, 0x441, 0x441, 0x435]\<rparr>"

section \<open>What the round trip relies on\<close>

text \<open>
  The invariants of a task (a title that passes the check, three canonical values, a
  due date that is a date), the due date cut to the minute, and the two facts about the
  Unicode rows that re-reading a saved record uses: the ASCII digits are decimal digits
  with their values, and lowercasing leaves the canonical values as they are.
\<close>

definition valid_task :: "task \<Rightarrow> bool" where
  "valid_task t =
     (title_ok (title t) \<and> category t \<in> set categories \<and> priority t \<in> set priorities \<and>
      status t \<in> set statuses \<and> valid_datetime (due_date t))"

definition to_minute :: "task \<Rightarrow> task" where
  "to_minute t = t\<lparr>due_date := (due_date t)\<lparr>second := 0, microsecond := 0\<rparr>\<rparr>"

definition ucd_ascii_digits :: "ucd \<Rightarrow> bool" where
  "ucd_ascii_digits U = (\<forall>c. 0x30 \<le> c \<and> c \<le> 0x39 \<longrightarrow> u_decimal U c = Some (c - 0x30))"

definition ucd_keeps :: "ucd \<Rightarrow> pstr list \<Rightarrow> bool" where
  "ucd_keeps U vs = (\<forall>v \<in> set vs. u_lower U v = v)"

section \<open>What a relative expression adds up to\<close>


definition part_unit :: "ucd \<Rightarrow> pstr \<Rightarrow> (nat \<times> pstr) option" where
  "part_unit U part =
     (case match_part U part of
        None \<Rightarrow> None
      | Some (g1, g2) \<Rightarrow>
          (case normalize_value U (u_lower U g2) all_units of
             Inl e \<Rightarrow> None
           | Inr nu \<Rightarrow> Some (py_int U g1, nu)))"




definition total :: "ucd \<Rightarrow> (nat \<times> pstr \<Rightarrow> nat) \<Rightarrow> pstr list \<Rightarrow> nat" where
  "total U f parts =
     sum_list (map (\<lambda>p. case part_unit U p of None \<Rightarrow> 0 | Some vu \<Rightarrow> f vu) parts)"

section \<open>The field normalizer returns the first best match\<close>

lemma lcs_len_le1: "lcs_len xs ys \<le> length xs"
  by (induction xs ys rule: lcs_len.induct) auto
lemma lcs_len_le2: "lcs_len xs ys \<le> length ys"
  by (induction xs ys rule: lcs_len.induct) auto

lemma fuzz_ratio_bounds: "0 \<le> fuzz_ratio s1 s2 \<and> fuzz_ratio s1 s2 \<le> 100"
proof (cases "length s1 + length s2 = 0")
  case True
  then show ?thesis by (simp add: fuzz_ratio_def)
next
  case False
  define m where "m = length s1 + length s2"
  define d where "d = indel_distance s1 s2"
  have "d \<le> m"
    by (simp add: indel_distance_def m_def d_def)
  then have le: "(of_nat d :: rat) \<le> of_nat m"
    by simp
  from False have "0 < m" by (simp add: m_def)
  then have pos: "(0::rat) < of_nat m" by simp
  have q: "(of_nat d :: rat) / of_nat m \<le> 1" "0 \<le> (of_nat d :: rat) / of_nat m"
    using le pos by (simp_all add: divide_le_eq_1)
  define r where "r = (of_nat d :: rat) / of_nat m"
  have "fuzz_ratio s1 s2 = (1 - r) * 100"
    using False unfolding r_def by (simp add: fuzz_ratio_def Let_def m_def d_def)
  moreover have "r \<le> 1" "0 \<le> r" using q by (simp_all add: r_def)
  ultimately show ?thesis by simp
qed

lemma extractOne_loop_Some:
  "\<exists>v sv iv. extractOne_loop q (Some (b, sb, ib)) i cs = Some (v, sv, iv) \<and>
     sb \<le> sv \<and> (\<forall>c \<in> set cs. fuzz_ratio q c \<le> sv) \<and>
     ((v, sv, iv) = (b, sb, ib) \<or>
      (\<exists>k < length cs. v = cs ! k \<and> iv = i + k \<and> sv = fuzz_ratio q v \<and> sb < sv \<and>
          (\<forall>j < k. fuzz_ratio q (cs ! j) < sv)))"
proof (induction cs arbitrary: b sb ib i)
  case Nil
  then show ?case by simp
next
  case (Cons c cs)
  show ?case
  proof (cases "fuzz_ratio q c > sb")
    case True
    from Cons.IH[of c "fuzz_ratio q c" i "Suc i"]
    obtain v sv iv where h: "extractOne_loop q (Some (c, fuzz_ratio q c, i)) (Suc i) cs = Some (v, sv, iv)"
      "fuzz_ratio q c \<le> sv" "\<forall>c \<in> set cs. fuzz_ratio q c \<le> sv"
      "(v, sv, iv) = (c, fuzz_ratio q c, i) \<or>
      (\<exists>k < length cs. v = cs ! k \<and> iv = Suc i + k \<and> sv = fuzz_ratio q v \<and> fuzz_ratio q c < sv \<and>
          (\<forall>j < k. fuzz_ratio q (cs ! j) < sv))" by blast
    from h(4) have "\<exists>k < length (c # cs). v = (c # cs) ! k \<and> iv = i + k \<and> sv = fuzz_ratio q v \<and> sb < sv \<and>
          (\<forall>j < k. fuzz_ratio q ((c # cs) ! j) < sv)"
    proof
      assume "(v, sv, iv) = (c, fuzz_ratio q c, i)"
      with True show ?thesis by (intro exI[of _ 0]) simp
    next
      assume "\<exists>k < length cs. v = cs ! k \<and> iv = Suc i + k \<and> sv = fuzz_ratio q v \<and> fuzz_ratio q c < sv \<and>
          (\<forall>j < k. fuzz_ratio q (cs ! j) < sv)"
      then obtain k where k: "k < length cs" "v = cs ! k" "iv = Suc i + k" "sv = fuzz_ratio q v"
        "fuzz_ratio q c < sv" "\<forall>j < k. fuzz_ratio q (cs ! j) < sv" by blast
      have "\<forall>j < Suc k. fuzz_ratio q ((c # cs) ! j) < sv"
        using k(5,6) by (auto simp: nth_Cons split: nat.splits)
      with k True show ?thesis by (intro exI[of _ "Suc k"]) auto
    qed
    with h True show ?thesis by auto
  next
    case False
    from Cons.IH[of b sb ib "Suc i"]
    obtain v sv iv where h: "extractOne_loop q (Some (b, sb, ib)) (Suc i) cs = Some (v, sv, iv)"
      "sb \<le> sv" "\<forall>c \<in> set cs. fuzz_ratio q c \<le> sv"
      "(v, sv, iv) = (b, sb, ib) \<or>
      (\<exists>k < length cs. v = cs ! k \<and> iv = Suc i + k \<and> sv = fuzz_ratio q v \<and> sb < sv \<and>
          (\<forall>j < k. fuzz_ratio q (cs ! j) < sv))" by blast
    from h(4) have "(v, sv, iv) = (b, sb, ib) \<or> (\<exists>k < length (c # cs). v = (c # cs) ! k \<and> iv = i + k \<and> sv = fuzz_ratio q v \<and> sb < sv \<and>
          (\<forall>j < k. fuzz_ratio q ((c # cs) ! j) < sv))"
    proof
      assume "(v, sv, iv) = (b, sb, ib)" then show ?thesis by simp
    next
      assume "\<exists>k < length cs. v = cs ! k \<and> iv = Suc i + k \<and> sv = fuzz_ratio q v \<and> sb < sv \<and>
          (\<forall>j < k. fuzz_ratio q (cs ! j) < sv)"
      then obtain k where k: "k < length cs" "v = cs ! k" "iv = Suc i + k" "sv = fuzz_ratio q v"
        "sb < sv" "\<forall>j < k. fuzz_ratio q (cs ! j) < sv" by blast
      have "\<forall>j < Suc k. fuzz_ratio q ((c # cs) ! j) < sv"
        using k(5,6) False by (auto simp: nth_Cons split: nat.splits)
      with k show ?thesis by (intro disjI2 exI[of _ "Suc k"]) auto
    qed
    with h False show ?thesis by auto
  qed
qed

lemma extractOne_Nil: "extractOne q [] = None"
  by (simp add: extractOne_def)

lemma extractOne_first_best:
  assumes "V \<noteq> []"
  shows "\<exists>i < length V. extractOne q V = Some (V ! i, fuzz_ratio q (V ! i), i) \<and>
           (\<forall>j < length V. fuzz_ratio q (V ! j) \<le> fuzz_ratio q (V ! i)) \<and>
           (\<forall>j < i. fuzz_ratio q (V ! j) < fuzz_ratio q (V ! i))"
proof -
  from assms obtain c cs where V: "V = c # cs" by (cases V) auto
  have e: "extractOne q V = extractOne_loop q (Some (c, fuzz_ratio q c, 0)) (Suc 0) cs"
    by (simp add: extractOne_def V)
  from extractOne_loop_Some[of q c "fuzz_ratio q c" 0 "Suc 0" cs]
  obtain v sv iv where h: "extractOne_loop q (Some (c, fuzz_ratio q c, 0)) (Suc 0) cs = Some (v, sv, iv)"
      "fuzz_ratio q c \<le> sv" "\<forall>c \<in> set cs. fuzz_ratio q c \<le> sv"
      "(v, sv, iv) = (c, fuzz_ratio q c, 0) \<or>
      (\<exists>k < length cs. v = cs ! k \<and> iv = Suc 0 + k \<and> sv = fuzz_ratio q v \<and> fuzz_ratio q c < sv \<and>
          (\<forall>j < k. fuzz_ratio q (cs ! j) < sv))" by blast
  have all: "\<forall>j < length V. fuzz_ratio q (V ! j) \<le> sv"
    using h(2,3) by (auto simp: V nth_Cons split: nat.splits)
  from h(4) show ?thesis
  proof
    assume "(v, sv, iv) = (c, fuzz_ratio q c, 0)"
    with h(1) e all show ?thesis by (intro exI[of _ 0]) (auto simp: V)
  next
    assume "\<exists>k < length cs. v = cs ! k \<and> iv = Suc 0 + k \<and> sv = fuzz_ratio q v \<and> fuzz_ratio q c < sv \<and>
          (\<forall>j < k. fuzz_ratio q (cs ! j) < sv)"
    then obtain k where k: "k < length cs" "v = cs ! k" "iv = Suc 0 + k" "sv = fuzz_ratio q v"
        "fuzz_ratio q c < sv" "\<forall>j < k. fuzz_ratio q (cs ! j) < sv" by blast
    have "\<forall>j < Suc k. fuzz_ratio q (V ! j) < sv"
      using k(5,6) by (auto simp: V nth_Cons split: nat.splits)
    with k h(1) e all show ?thesis by (intro exI[of _ "Suc k"]) (auto simp: V)
  qed
qed

text \<open>
  C5. For every input \<open>s\<close> and list \<open>V\<close>, with \<open>q\<close> the trimmed and lowercased input:
  every score is between 0 and 100; with no allowed value the normalizer fails; otherwise
  there is a position \<open>i\<close> of \<open>V\<close> whose score no candidate exceeds and no earlier
  candidate reaches, and the normalizer returns that candidate unless its score is below
  70, in which case it fails with the error that carries \<open>q\<close> and \<open>V\<close>.
\<close>

theorem normalize_value_best_match:
  "(\<forall>v. 0 \<le> fuzz_ratio (u_lower U (strip s)) v \<and> fuzz_ratio (u_lower U (strip s)) v \<le> 100) \<and>
   (V = [] \<longrightarrow> normalize_value U s V = Inl (InvalidValue (u_lower U (strip s)) V)) \<and>
   (V \<noteq> [] \<longrightarrow>
      (\<exists>i < length V.
         (\<forall>j < length V. fuzz_ratio (u_lower U (strip s)) (V ! j) \<le> fuzz_ratio (u_lower U (strip s)) (V ! i)) \<and>
         (\<forall>j < i. fuzz_ratio (u_lower U (strip s)) (V ! j) < fuzz_ratio (u_lower U (strip s)) (V ! i)) \<and>
         normalize_value U s V =
           (if fuzz_ratio (u_lower U (strip s)) (V ! i) < 70
            then Inl (InvalidValue (u_lower U (strip s)) V)
            else Inr (V ! i))))"
proof (intro conjI allI impI)
  assume "V = []"
  then show "normalize_value U s V = Inl (InvalidValue (u_lower U (strip s)) V)"
    by (simp add: normalize_value_def extractOne_Nil)
next
  assume "V \<noteq> []"
  from extractOne_first_best[OF this, of "u_lower U (strip s)"]
  obtain i where i: "i < length V"
    "extractOne (u_lower U (strip s)) V =
       Some (V ! i, fuzz_ratio (u_lower U (strip s)) (V ! i), i)"
    "\<forall>j < length V. fuzz_ratio (u_lower U (strip s)) (V ! j) \<le> fuzz_ratio (u_lower U (strip s)) (V ! i)"
    "\<forall>j < i. fuzz_ratio (u_lower U (strip s)) (V ! j) < fuzz_ratio (u_lower U (strip s)) (V ! i)"
    by blast
  have "normalize_value U s V =
           (if fuzz_ratio (u_lower U (strip s)) (V ! i) < 70
            then Inl (InvalidValue (u_lower U (strip s)) V)
            else Inr (V ! i))"
    by (simp add: normalize_value_def i(2))
  with i show "\<exists>i < length V.
         (\<forall>j < length V. fuzz_ratio (u_lower U (strip s)) (V ! j) \<le> fuzz_ratio (u_lower U (strip s)) (V ! i)) \<and>
         (\<forall>j < i. fuzz_ratio (u_lower U (strip s)) (V ! j) < fuzz_ratio (u_lower U (strip s)) (V ! i)) \<and>
         normalize_value U s V =
           (if fuzz_ratio (u_lower U (strip s)) (V ! i) < 70
            then Inl (InvalidValue (u_lower U (strip s)) V)
            else Inr (V ! i))"
    by blast
qed (simp_all add: fuzz_ratio_bounds)

theorem normalize_value_best_match_witness:
  "[asc ''day'', asc ''days''] \<noteq> [] \<and>
   normalize_value ucd_latin_cyrillic (asc '' DAY  '') [asc ''day'', asc ''days''] = Inr (asc ''day'') \<and>
   fuzz_ratio (asc ''day'') (asc ''days'') < fuzz_ratio (asc ''day'') (asc ''day'') \<and>
   normalize_value ucd_latin_cyrillic (asc ''xy'') [] = Inl (InvalidValue (asc ''xy'') [])"
proof -
  define V where "V = [asc ''day'', asc ''days'']"
  define q where "q = asc ''day''"
  have ne: "V \<noteq> []" by (simp add: V_def)
  have q: "u_lower ucd_latin_cyrillic (strip (asc '' DAY  '')) = q"
    by (simp add: ucd_latin_cyrillic_def strip_def asc_def isspace_def lower_cp_def q_def)
  have q2: "u_lower ucd_latin_cyrillic (strip (asc ''xy'')) = asc ''xy''"
    by (simp add: ucd_latin_cyrillic_def strip_def asc_def isspace_def lower_cp_def)
  have r1: "fuzz_ratio q (V ! 0) = 100"
    by (simp add: fuzz_ratio_def indel_distance_def asc_def q_def V_def)
  have r2: "fuzz_ratio q (V ! 1) = 600 / 7"
    by (simp add: fuzz_ratio_def indel_distance_def asc_def q_def V_def)
  note T = normalize_value_best_match[of ucd_latin_cyrillic "asc '' DAY  ''" V, unfolded q]
  from T ne obtain i where i: "i < length V"
    "\<forall>j < length V. fuzz_ratio q (V ! j) \<le> fuzz_ratio q (V ! i)"
    "normalize_value ucd_latin_cyrillic (asc '' DAY  '') V =
       (if fuzz_ratio q (V ! i) < 70 then Inl (InvalidValue q V) else Inr (V ! i))"
    by blast
  from i(1) have "i = 0 \<or> i = 1" by (auto simp: V_def)
  then have i0: "i = 0"
  proof
    assume "i = 1"
    with i(2) have "fuzz_ratio q (V ! 0) \<le> fuzz_ratio q (V ! 1)"
      by (auto simp: V_def)
    with r1 r2 show ?thesis by simp
  qed
  have a: "normalize_value ucd_latin_cyrillic (asc '' DAY  '') V = Inr (V ! 0)"
    using i(3) r1 unfolding i0 by simp
  have b: "normalize_value ucd_latin_cyrillic (asc ''xy'') [] = Inl (InvalidValue (asc ''xy'') [])"
    using normalize_value_best_match[of ucd_latin_cyrillic "asc ''xy''" "[]"] unfolding q2 by simp
  have c: "fuzz_ratio q (V ! 1) < fuzz_ratio q (V ! 0)" using r1 r2 by simp
  from a b c show ?thesis by (simp add: V_def q_def)
qed

section \<open>Exact and hopeless inputs of the normalizer\<close>

lemma lcs_len_full:
  "lcs_len xs ys = length xs \<Longrightarrow> length xs = length ys \<Longrightarrow> xs = ys"
proof (induction xs ys rule: lcs_len.induct)
  case (3 x xs y ys)
  show ?case
  proof (cases "x = y")
    case True
    with 3 show ?thesis by simp
  next
    case False
    have "lcs_len (x # xs) ys \<le> length ys" "lcs_len xs (y # ys) \<le> length xs"
      by (rule lcs_len_le2, rule lcs_len_le1)
    with 3(4,5) False show ?thesis by simp
  qed
qed simp_all

lemma lcs_len_same: "lcs_len xs xs = length xs"
  by (induction xs) simp_all

lemma lcs_len_disjoint: "set xs \<inter> set ys = {} \<Longrightarrow> lcs_len xs ys = 0"
  by (induction xs ys rule: lcs_len.induct) auto

lemma fuzz_ratio_same: "fuzz_ratio q q = 100"
  by (simp add: fuzz_ratio_def indel_distance_def lcs_len_same Let_def)

lemma fuzz_ratio_100: "fuzz_ratio q v = 100 \<longleftrightarrow> q = v"
proof
  assume h: "fuzz_ratio q v = 100"
  define m where "m = length q + length v"
  define d where "d = indel_distance q v"
  show "q = v"
  proof (cases "m = 0")
    case True
    then show ?thesis by (simp add: m_def)
  next
    case False
    then have pos: "(of_nat m :: rat) \<noteq> 0" by simp
    from False have "fuzz_ratio q v = (1 - of_nat d / of_nat m) * 100"
      unfolding fuzz_ratio_def Let_def m_def d_def by (simp del: of_nat_add)
    with h have "(1 - (of_nat d :: rat) / of_nat m) * 100 = 100" by simp
    then have "(of_nat d :: rat) / of_nat m = 0" by simp
    with pos have "(of_nat d :: rat) = 0" by simp
    then have "d = 0" by simp
    then have "length q + length v \<le> 2 * lcs_len q v"
      by (simp add: indel_distance_def d_def)
    moreover have "lcs_len q v \<le> length q" "lcs_len q v \<le> length v"
      by (rule lcs_len_le1, rule lcs_len_le2)
    ultimately have "lcs_len q v = length q \<and> length q = length v" by arith
    then show ?thesis using lcs_len_full by blast
  qed
next
  assume "q = v"
  then show "fuzz_ratio q v = 100" by (simp add: fuzz_ratio_same)
qed

lemma fuzz_ratio_disjoint:
  assumes "set q \<inter> set v = {}" and "q \<noteq> [] \<or> v \<noteq> []"
  shows "fuzz_ratio q v = 0"
proof -
  define m where "m = length q + length v"
  from assms(2) have m: "m \<noteq> 0" by (auto simp: m_def)
  then have pos: "(of_nat m :: rat) \<noteq> 0" by simp
  have "indel_distance q v = m"
    by (simp add: indel_distance_def m_def lcs_len_disjoint[OF assms(1)])
  with m have "fuzz_ratio q v = (1 - of_nat m / of_nat m) * 100"
    unfolding fuzz_ratio_def Let_def m_def by (simp del: of_nat_add)
  with pos show ?thesis by simp
qed

lemma extractOne_exact:
  assumes "q \<in> set V"
  shows "\<exists>i. extractOne q V = Some (q, 100, i)"
proof -
  from assms have ne: "V \<noteq> []" by auto
  from assms obtain k where k: "k < length V" "V ! k = q"
    by (auto simp: in_set_conv_nth)
  from extractOne_first_best[OF ne, of q]
  obtain i where i: "i < length V"
    "extractOne q V = Some (V ! i, fuzz_ratio q (V ! i), i)"
    "\<forall>j < length V. fuzz_ratio q (V ! j) \<le> fuzz_ratio q (V ! i)"
    by blast
  from i(3) k(1) have "fuzz_ratio q (V ! k) \<le> fuzz_ratio q (V ! i)" by blast
  then have "100 \<le> fuzz_ratio q (V ! i)"
    by (simp add: k(2) fuzz_ratio_same)
  with fuzz_ratio_bounds[of q "V ! i"] have "fuzz_ratio q (V ! i) = 100" by simp
  with i(2) show ?thesis by (auto simp: fuzz_ratio_100)
qed

lemma normalize_value_exact:
  "u_lower U (strip s) \<in> set V \<Longrightarrow> normalize_value U s V = Inr (u_lower U (strip s))"
  using extractOne_exact[of "u_lower U (strip s)" V]
  by (auto simp: normalize_value_def)

lemma normalize_value_low:
  assumes "\<And>v. v \<in> set V \<Longrightarrow> fuzz_ratio (u_lower U (strip s)) v < 70"
  shows "normalize_value U s V = Inl (InvalidValue (u_lower U (strip s)) V)"
proof (cases "V = []")
  case True
  then show ?thesis by (simp add: normalize_value_def extractOne_Nil)
next
  case False
  from extractOne_first_best[OF False, of "u_lower U (strip s)"]
  obtain i where i: "i < length V"
    "extractOne (u_lower U (strip s)) V =
       Some (V ! i, fuzz_ratio (u_lower U (strip s)) (V ! i), i)"
    by blast
  from i(1) assms have "fuzz_ratio (u_lower U (strip s)) (V ! i) < 70" by simp
  with i(2) show ?thesis by (simp add: normalize_value_def)
qed

section \<open>Which errors the parts of the constructor raise\<close>









section \<open>The constructor on the defaults of its signature\<close>

lemma lower_strip_default_category:
  "u_lower ucd_latin_cyrillic (strip [0x434, 0x440, 0x443, 0x433, 0x43E, 0x435]) =
     [0x434, 0x440, 0x443, 0x433, 0x43E, 0x435]"
  by (simp add: ucd_latin_cyrillic_def strip_def isspace_def lower_cp_def)

lemma lower_strip_default_priority:
  "u_lower ucd_latin_cyrillic
     (strip [0x43E, 0x442, 0x441, 0x443, 0x442, 0x441, 0x442, 0x432, 0x443, 0x435, 0x442]) =
     [0x43E, 0x442, 0x441, 0x443, 0x442, 0x441, 0x442, 0x432, 0x443, 0x435, 0x442]"
  by (simp add: ucd_latin_cyrillic_def strip_def isspace_def lower_cp_def)

lemma lower_strip_default_status:
  "u_lower ucd_latin_cyrillic
     (strip [0x432, 0x20, 0x43F, 0x440, 0x43E, 0x446, 0x435, 0x441, 0x441, 0x435]) =
     [0x432, 0x20, 0x43F, 0x440, 0x43E, 0x446, 0x435, 0x441, 0x441, 0x435]"
  by (simp add: ucd_latin_cyrillic_def strip_def isspace_def lower_cp_def)

lemma Task_init_title_only:
  assumes "title_ok ti"
  shows "Task_init ucd_latin_cyrillic now c ((title_only ti)\<lparr>d_id := i\<rparr>) =
     Inr (\<lparr>tid = (case i of None \<Rightarrow> c | Some k \<Rightarrow> k), title = ti, description = [],
           category = [0x434, 0x440, 0x443, 0x433, 0x43E, 0x435], due_date = now,
           priority = [0x43E, 0x442, 0x441, 0x443, 0x442, 0x441, 0x442, 0x432, 0x443, 0x435, 0x442],
           status = [0x432, 0x20, 0x43F, 0x440, 0x43E, 0x446, 0x435, 0x441, 0x441, 0x435]\<rparr>,
          (case i of None \<Rightarrow> c + 1 | Some k \<Rightarrow> max k c + 1))"
proof -
  have c: "normalize_value ucd_latin_cyrillic [0x434, 0x440, 0x443, 0x433, 0x43E, 0x435] categories =
      Inr [0x434, 0x440, 0x443, 0x433, 0x43E, 0x435]"
    using normalize_value_exact[of ucd_latin_cyrillic "[0x434, 0x440, 0x443, 0x433, 0x43E, 0x435]" categories]
    unfolding lower_strip_default_category by (simp add: categories_def)
  have p: "normalize_value ucd_latin_cyrillic
      [0x43E, 0x442, 0x441, 0x443, 0x442, 0x441, 0x442, 0x432, 0x443, 0x435, 0x442] priorities =
      Inr [0x43E, 0x442, 0x441, 0x443, 0x442, 0x441, 0x442, 0x432, 0x443, 0x435, 0x442]"
    using normalize_value_exact[of ucd_latin_cyrillic
        "[0x43E, 0x442, 0x441, 0x443, 0x442, 0x441, 0x442, 0x432, 0x443, 0x435, 0x442]" priorities]
    unfolding lower_strip_default_priority by (simp add: priorities_def)
  have s: "normalize_value ucd_latin_cyrillic
      [0x432, 0x20, 0x43F, 0x440, 0x43E, 0x446, 0x435, 0x441, 0x441, 0x435] statuses =
      Inr [0x432, 0x20, 0x43F, 0x440, 0x43E, 0x446, 0x435, 0x441, 0x441, 0x435]"
    using normalize_value_exact[of ucd_latin_cyrillic
        "[0x432, 0x20, 0x43F, 0x440, 0x43E, 0x446, 0x435, 0x441, 0x441, 0x435]" statuses]
    unfolding lower_strip_default_status by (simp add: statuses_def)
  show ?thesis
    using assms by (simp add: Task_init_def title_only_def c p s parse_due_date_def split: option.splits)
qed

lemma title_ok_ascii [simp]: "title_ok (asc ''Task 1'')" "title_ok (asc ''Task 2'')"
  by (simp_all add: title_ok_def asc_def rng_def)

section \<open>Canonical values and the sample rows\<close>

lemma strip_canonical:
  "v \<in> set (categories @ priorities @ statuses) \<Longrightarrow> strip v = v"
  by (auto simp: categories_def priorities_def statuses_def strip_def isspace_def)

lemma normalize_canonical:
  assumes "ucd_keeps U (categories @ priorities @ statuses)"
    and "v \<in> set V" and "set V \<subseteq> set (categories @ priorities @ statuses)"
  shows "normalize_value U v V = Inr v"
proof -
  from assms(2,3) have in_all: "v \<in> set (categories @ priorities @ statuses)" by blast
  then have "u_lower U (strip v) = v"
    using assms(1) by (simp add: strip_canonical ucd_keeps_def del: set_append)
  with normalize_value_exact[of U v V] assms(2) show ?thesis by simp
qed

lemma ucd_latin_cyrillic_digits: "ucd_ascii_digits ucd_latin_cyrillic"
  by (simp add: ucd_ascii_digits_def ucd_latin_cyrillic_def)

lemma ucd_latin_cyrillic_keeps: "ucd_keeps ucd_latin_cyrillic (categories @ priorities @ statuses)"
  by (simp add: ucd_keeps_def ucd_latin_cyrillic_def categories_def priorities_def statuses_def
      lower_cp_def)




section \<open>The title check of the constructor\<close>




section \<open>Removing the task with id 0\<close>

text \<open>
  C7 fails on the code for the id 0, the first id the counter hands out: the test
  \<^verbatim>\<open>if task_id:\<close> treats 0 like a missing argument, so \<^verbatim>\<open>remove_task(0)\<close> keeps the task
  with id 0 (and every other task) and only rewrites the file.
\<close>

theorem remove_task_zero_keeps_task:
  "tasks (remove_task (st\<lparr>tasks := [t\<lparr>tid := 0\<rparr>]\<rparr>) (Some 0)) = [t\<lparr>tid := 0\<rparr>]"
  by (simp add: remove_task_def save_tasks_def)


section \<open>\<^verbatim>\<open>update_task\<close> does not check a new title\<close>

text \<open>
  C1 fails on the code: \<^verbatim>\<open>update_task\<close> assigns a new title as it is given. On a
  store holding one task with id 1, the update with the title \<^verbatim>\<open>!Invalid\<close> succeeds, the
  task carries that title afterwards and so does the file, although the title check of
  the constructor refuses it.
\<close>

theorem update_task_title_unchecked:
  "update_task U now \<lparr>id_counter = 2, tasks = [t\<lparr>tid := 1\<rparr>], json_file = f\<rparr> 1
     \<lparr>new_title = Some (asc ''!Invalid''), new_description = None, new_category = None,
      new_due_date = None, new_priority = None, new_status = None\<rparr> =
   (None, \<lparr>id_counter = 2, tasks = [t\<lparr>tid := 1, title := asc ''!Invalid''\<rparr>],
           json_file = [to_dict (t\<lparr>tid := 1, title := asc ''!Invalid''\<rparr>)]\<rparr>) \<and>
   \<not> title_ok (asc ''!Invalid'')"
  by (simp add: update_task_def update_fields_def set_title_def set_description_def
      set_category_def set_due_date_def set_priority_def set_status_def given_def
      save_tasks_def asc_def title_ok_def rng_def)


section \<open>Ids from the class counter\<close>

lemma Task_init_id:
  assumes "Task_init U now c a = Inr (t, c')"
  shows "tid t < c'" and "c < c'"
    and "d_id a = None \<Longrightarrow> tid t = c \<and> c' = c + 1"
    and "d_id a = Some K \<Longrightarrow> tid t = K \<and> c' = max K c + 1"
  using assms
  by (auto simp: Task_init_def Let_def split: if_splits sum.splits option.splits)

lemma add_task_cases:
  "(\<exists>e. add_task U now st a = (Some e, st)) \<or>
   (\<exists>t. add_task U now st a =
          (None, save_tasks (st\<lparr>id_counter := id_counter st + 1, tasks := tasks st @ [t]\<rparr>)) \<and>
        tid t = id_counter st)"
proof (cases "Task_init U now (id_counter st) (a\<lparr>d_id := None\<rparr>)")
  case (Inl e)
  then show ?thesis by (simp add: add_task_def)
next
  case (Inr p)
  obtain t c where p: "p = (t, c)" by (cases p)
  from Task_init_id(3)[OF Inr[unfolded p]] have "tid t = id_counter st" "c = id_counter st + 1"
    by simp_all
  with Inr p have "add_task U now st a =
          (None, save_tasks (st\<lparr>id_counter := id_counter st + 1, tasks := tasks st @ [t]\<rparr>)) \<and>
        tid t = id_counter st" by (simp add: add_task_def)
  then show ?thesis by blast
qed

lemma add_tasks_new_ids:
  "\<exists>new. tasks (add_tasks U clock st as) = tasks st @ new \<and>
         sorted_wrt (<) (map tid new) \<and>
         (\<forall>t \<in> set new. id_counter st \<le> tid t)"
proof (induction as arbitrary: clock st)
  case Nil
  show ?case by simp
next
  case (Cons a as)
  from add_task_cases[of U "clock 0" st a]
  show ?case
  proof
    assume "\<exists>e. add_task U (clock 0) st a = (Some e, st)"
    then obtain e where "add_task U (clock 0) st a = (Some e, st)" ..
    with Cons.IH[of "\<lambda>i. clock (Suc i)" st] show ?thesis by simp
  next
    assume "\<exists>t. add_task U (clock 0) st a =
          (None, save_tasks (st\<lparr>id_counter := id_counter st + 1, tasks := tasks st @ [t]\<rparr>)) \<and>
        tid t = id_counter st"
    then obtain t where t: "add_task U (clock 0) st a =
          (None, save_tasks (st\<lparr>id_counter := id_counter st + 1, tasks := tasks st @ [t]\<rparr>))"
        "tid t = id_counter st" by blast
    define st1 where "st1 = save_tasks (st\<lparr>id_counter := id_counter st + 1, tasks := tasks st @ [t]\<rparr>)"
    have st1: "tasks st1 = tasks st @ [t]" "id_counter st1 = id_counter st + 1"
      by (simp_all add: st1_def save_tasks_def)
    from Cons.IH[of "\<lambda>i. clock (Suc i)" st1]
    obtain new where new: "tasks (add_tasks U (\<lambda>i. clock (Suc i)) st1 as) = tasks st1 @ new"
      "sorted_wrt (<) (map tid new)" "\<forall>x \<in> set new. id_counter st1 \<le> tid x" by blast
    have "tasks (add_tasks U clock st (a # as)) = tasks st @ (t # new)"
      using new(1) t(1) st1 by (simp add: st1_def)
    moreover have "sorted_wrt (<) (map tid (t # new))"
      using new(2,3) t(2) st1(2) by auto
    moreover have "\<forall>x \<in> set (t # new). id_counter st \<le> tid x"
      using new(3) t(2) st1(2) by auto
    ultimately show ?thesis by blast
  qed
qed

lemma load_tasks_ids:
  "load_tasks U clock c data = Inr (ts, c') \<Longrightarrow> c \<le> c' \<and> (\<forall>t \<in> set ts. tid t < c')"
proof (induction data arbitrary: clock c ts c')
  case Nil
  then show ?case by simp
next
  case (Cons a data)
  from Cons.prems obtain t c1 ts1 where
    h: "Task_init U (clock 0) c a = Inr (t, c1)"
       "load_tasks U (\<lambda>i. clock (Suc i)) c1 data = Inr (ts1, c')" "ts = t # ts1"
    by (auto split: sum.splits prod.splits)
  from Cons.IH[OF h(2)] Task_init_id(1,2)[OF h(1)] h(3)
  show ?case by auto
qed

text \<open>
  C6. (1) From an empty store, the tasks that a run of \<^verbatim>\<open>add_task\<close> calls creates carry
  strictly increasing, hence pairwise distinct, ids, in the order of creation.
  (2) A task built with the explicit id \<open>K\<close> gets that id and moves the counter to
  \<open>max K counter + 1\<close>, so the next task built without an id gets an id above \<open>K\<close>.
  (3) After a store is loaded, the ids of all tasks added later differ from every
  loaded id.
\<close>

theorem id_counter_gives_fresh_ids:
  "(tasks st = [] \<longrightarrow>
      sorted_wrt (<) (map tid (tasks (add_tasks U clock st as))) \<and>
      distinct (map tid (tasks (add_tasks U clock st as)))) \<and>
   (Task_init U now c (a\<lparr>d_id := Some K\<rparr>) = Inr (t, c') \<longrightarrow>
      tid t = K \<and> c' = max K c + 1 \<and>
      (Task_init U now2 c' (b\<lparr>d_id := None\<rparr>) = Inr (t2, c2) \<longrightarrow> K < tid t2)) \<and>
   (load_tasks U clock1 c0 data = Inr (ts, c1) \<longrightarrow>
      (\<exists>new. tasks (add_tasks U clock2 \<lparr>id_counter = c1, tasks = ts, json_file = f\<rparr> as2) = ts @ new \<and>
             (\<forall>x \<in> set new. tid x \<notin> tid ` set ts)))"
proof (intro conjI impI)
  assume e: "tasks st = []"
  from add_tasks_new_ids[of U clock st as] e
  have s: "sorted_wrt (<) (map tid (tasks (add_tasks U clock st as)))" by auto
  then show "sorted_wrt (<) (map tid (tasks (add_tasks U clock st as)))" .
  from s show "distinct (map tid (tasks (add_tasks U clock st as)))"
    using strict_sorted_iff by blast
next
  assume h: "Task_init U now c (a\<lparr>d_id := Some K\<rparr>) = Inr (t, c')"
  from Task_init_id(4)[OF h, of K] show k: "tid t = K" and c': "c' = max K c + 1" by simp_all
  assume h2: "Task_init U now2 c' (b\<lparr>d_id := None\<rparr>) = Inr (t2, c2)"
  from Task_init_id(3)[OF h2] c' show "K < tid t2" by simp
next
  assume h: "load_tasks U clock1 c0 data = Inr (ts, c1)"
  from load_tasks_ids[OF h] have lt: "\<forall>t \<in> set ts. tid t < c1" by simp
  from add_tasks_new_ids[of U clock2 "\<lparr>id_counter = c1, tasks = ts, json_file = f\<rparr>" as2]
  obtain new where new:
    "tasks (add_tasks U clock2 \<lparr>id_counter = c1, tasks = ts, json_file = f\<rparr> as2) = ts @ new"
    "\<forall>x \<in> set new. c1 \<le> tid x" by auto
  from lt new(2) have "\<forall>x \<in> set new. tid x \<notin> tid ` set ts" by fastforce
  with new(1) show "\<exists>new. tasks (add_tasks U clock2 \<lparr>id_counter = c1, tasks = ts, json_file = f\<rparr> as2) = ts @ new \<and>
             (\<forall>x \<in> set new. tid x \<notin> tid ` set ts)" by blast
qed

theorem id_counter_gives_fresh_ids_witness:
  "tasks \<lparr>id_counter = 0, tasks = [], json_file = []\<rparr> = [] \<and>
   map tid (tasks (add_tasks ucd_latin_cyrillic (\<lambda>i. sample_now)
      \<lparr>id_counter = 0, tasks = [], json_file = []\<rparr>
      [title_only (asc ''Task 1''), title_only (asc ''Task 2'')])) = [0, 1] \<and>
   distinct (map tid (tasks (add_tasks ucd_latin_cyrillic (\<lambda>i. sample_now)
      \<lparr>id_counter = 0, tasks = [], json_file = []\<rparr>
      [title_only (asc ''Task 1''), title_only (asc ''Task 2'')]))) \<and>
   (\<exists>t t2. Task_init ucd_latin_cyrillic sample_now 3 ((title_only (asc ''Task 1''))\<lparr>d_id := Some 10\<rparr>) = Inr (t, 11) \<and>
      Task_init ucd_latin_cyrillic sample_now 11 ((title_only (asc ''Task 2''))\<lparr>d_id := None\<rparr>) = Inr (t2, 12) \<and>
      10 < tid t2) \<and>
   (\<exists>ts new. load_tasks ucd_latin_cyrillic (\<lambda>i. sample_now) 0
        [(title_only (asc ''Task 1''))\<lparr>d_id := Some 3\<rparr>, (title_only (asc ''Task 2''))\<lparr>d_id := Some 5\<rparr>] = Inr (ts, 6) \<and>
      map tid ts = [3, 5] \<and>
      tasks (add_tasks ucd_latin_cyrillic (\<lambda>i. sample_now) \<lparr>id_counter = 6, tasks = ts, json_file = []\<rparr>
               [title_only (asc ''Task 1'')]) = ts @ new \<and>
      (\<forall>x \<in> set new. tid x \<notin> tid ` set ts))"
proof -
  let ?U = ucd_latin_cyrillic and ?clk = "\<lambda>i::nat. sample_now"
  let ?st = "\<lparr>id_counter = 0, tasks = [], json_file = []\<rparr>"
  let ?as = "[title_only (asc ''Task 1''), title_only (asc ''Task 2'')]"
  let ?data = "[(title_only (asc ''Task 1''))\<lparr>d_id := Some 3\<rparr>, (title_only (asc ''Task 2''))\<lparr>d_id := Some 5\<rparr>]"
  have ai: "\<And>t. (title_only t)\<lparr>d_id := None\<rparr> = title_only t"
    by (simp add: title_only_def)
  have run: "map tid (tasks (add_tasks ?U ?clk ?st ?as)) = [0, 1]"
    by (simp add: add_task_def Task_init_title_only save_tasks_def)
  obtain t where t: "Task_init ?U sample_now 3 ((title_only (asc ''Task 1''))\<lparr>d_id := Some 10\<rparr>) = Inr (t, 11)"
    by (simp add: Task_init_title_only)
  obtain t2 where t2: "Task_init ?U sample_now 11 ((title_only (asc ''Task 2''))\<lparr>d_id := None\<rparr>) = Inr (t2, 12)"
    by (simp add: Task_init_title_only)
  obtain ts where ts: "load_tasks ?U ?clk 0 ?data = Inr (ts, 6)" "map tid ts = [3, 5]"
    by (simp add: Task_init_title_only)
  note T = id_counter_gives_fresh_ids[where st = ?st and U = ?U and clock = ?clk and as = ?as
      and now = sample_now and c = 3 and a = "title_only (asc ''Task 1'')" and K = 10 and t = t
      and c' = 11 and ?now2.0 = sample_now and b = "title_only (asc ''Task 2'')" and ?t2.0 = t2
      and ?c2.0 = 12 and ?clock1.0 = ?clk and ?c0.0 = 0 and data = ?data and ts = ts
      and ?c1.0 = 6 and ?clock2.0 = ?clk and f = "[]" and ?as2.0 = "[title_only (asc ''Task 1'')]"]
  from T have d: "distinct (map tid (tasks (add_tasks ?U ?clk ?st ?as)))" by simp
  from T t t2 have k: "10 < tid t2" by blast
  from T ts(1) obtain new where new:
    "tasks (add_tasks ?U ?clk \<lparr>id_counter = 6, tasks = ts, json_file = []\<rparr> [title_only (asc ''Task 1'')]) = ts @ new"
    "\<forall>x \<in> set new. tid x \<notin> tid ` set ts" by blast
  have p2: "\<exists>t t2. Task_init ?U sample_now 3 ((title_only (asc ''Task 1''))\<lparr>d_id := Some 10\<rparr>) = Inr (t, 11) \<and>
      Task_init ?U sample_now 11 ((title_only (asc ''Task 2''))\<lparr>d_id := None\<rparr>) = Inr (t2, 12) \<and>
      10 < tid t2"
    by (rule exI[of _ t], rule exI[of _ t2], intro conjI) (rule t t2 k)+
  have p3: "\<exists>ts new. load_tasks ?U ?clk 0 ?data = Inr (ts, 6) \<and> map tid ts = [3, 5] \<and>
      tasks (add_tasks ?U ?clk \<lparr>id_counter = 6, tasks = ts, json_file = []\<rparr>
               [title_only (asc ''Task 1'')]) = ts @ new \<and>
      (\<forall>x \<in> set new. tid x \<notin> tid ` set ts)"
    by (rule exI[of _ ts], rule exI[of _ new], intro conjI) (rule ts new)+
  have p0: "tasks ?st = []" by simp
  from p0 run d p2 p3 show ?thesis by (intro conjI)
qed


section \<open>One year and two months from the last day of December\<close>

lemma no_format_1y_2mo:
  "try_formats ucd_latin_cyrillic now (asc ''1y 2mo'') date_formats = None"
  by (simp add: date_formats_def fmt_date_def fmt_date_time_def fmt_time_def fmt_iso_def
      strptime_def item_alts_def alt1_def alt2_def rng_def is_digit_def asc_def
      ucd_latin_cyrillic_def)

lemma split_1y_2mo: "split (asc ''1y 2mo'') = [asc ''1y'', asc ''2mo'']"
  by (simp add: split_def asc_def isspace_def)

lemma match_part_1y: "match_part ucd_latin_cyrillic (asc ''1y'') = Some (asc ''1'', asc ''y'')"
  by (simp add: match_part_def asc_def is_digit_def is_word_def ucd_latin_cyrillic_def isspace_def)

lemma match_part_2mo: "match_part ucd_latin_cyrillic (asc ''2mo'') = Some (asc ''2'', asc ''mo'')"
  by (simp add: match_part_def asc_def is_digit_def is_word_def ucd_latin_cyrillic_def isspace_def)

lemma normalize_unit_y:
  "normalize_value ucd_latin_cyrillic (u_lower ucd_latin_cyrillic (asc ''y'')) all_units = Inr (asc ''y'')"
proof -
  have l: "u_lower ucd_latin_cyrillic (asc ''y'') = asc ''y''"
    by (simp add: ucd_latin_cyrillic_def asc_def lower_cp_def)
  have q: "u_lower ucd_latin_cyrillic (strip (asc ''y'')) = asc ''y''"
    by (simp add: ucd_latin_cyrillic_def strip_def asc_def isspace_def lower_cp_def)
  have "asc ''y'' \<in> set all_units" by (simp add: all_units_def units_def)
  with normalize_value_exact[of ucd_latin_cyrillic "asc ''y''" all_units] show ?thesis
    unfolding l q by simp
qed

lemma normalize_unit_mo:
  "normalize_value ucd_latin_cyrillic (u_lower ucd_latin_cyrillic (asc ''mo'')) all_units = Inr (asc ''mo'')"
proof -
  have l: "u_lower ucd_latin_cyrillic (asc ''mo'') = asc ''mo''"
    by (simp add: ucd_latin_cyrillic_def asc_def lower_cp_def)
  have q: "u_lower ucd_latin_cyrillic (strip (asc ''mo'')) = asc ''mo''"
    by (simp add: ucd_latin_cyrillic_def strip_def asc_def isspace_def lower_cp_def)
  have "asc ''mo'' \<in> set all_units" by (simp add: all_units_def units_def)
  with normalize_value_exact[of ucd_latin_cyrillic "asc ''mo''" all_units] show ?thesis
    unfolding l q by simp
qed

lemma add_unit_y:
  "add_unit st v (asc ''y'') = Inr (st\<lparr>extra_years := extra_years st + v\<rparr>)"
  by (simp add: add_unit_def units_of_def units_def asc_def)

lemma add_unit_mo:
  "add_unit st v (asc ''mo'') = Inr (st\<lparr>extra_months := extra_months st + v\<rparr>)"
  by (simp add: add_unit_def units_of_def units_def asc_def)

lemma py_int_digit:
  "py_int ucd_latin_cyrillic (asc ''1'') = 1" "py_int ucd_latin_cyrillic (asc ''2'') = 2"
  by (simp_all add: py_int_def asc_def ucd_latin_cyrillic_def)

lemma parse_parts_1y_2mo:
  "parse_parts ucd_latin_cyrillic
     \<lparr>delta = 0, extra_months = 0, extra_years = 0, match_bool = False\<rparr> [asc ''1y'', asc ''2mo''] =
   Inr \<lparr>delta = 0, extra_months = 2, extra_years = 1, match_bool = True\<rparr>"
  by (simp add: match_part_1y match_part_2mo normalize_unit_y normalize_unit_mo py_int_digit
      add_unit_y add_unit_mo)

lemma datetime_add_zero_dec31:
  "datetime_add \<lparr>year = 2024, month = 12, day = 31, hour = 10, minute = 0, second = 0,
                 microsecond = 0\<rparr> 0 =
   Inr \<lparr>year = 2024, month = 12, day = 31, hour = 10, minute = 0, second = 0, microsecond = 0\<rparr>"
  by (simp add: datetime_add_def ymd2ord_def ord2ymd_def days_before_year_def
      days_before_month_def is_leap_def Let_def)

lemma carry_months_2025_14: "carry_months 2025 14 = (2026, 2)"
  by (simp add: carry_months.simps)

text \<open>
  C3 fails on the code for a clock reading on a day that the target month does not have.
  At 2024-12-31 10:00 the expression \<^verbatim>\<open>1y 2mo\<close> leads to year 2026 and month 2 with day 31,
  and \<^verbatim>\<open>replace\<close> raises instead of returning a date one year and two months later.
\<close>

theorem parse_1y_2mo_end_of_december:
  "parse_due_date ucd_latin_cyrillic
     \<lparr>year = 2024, month = 12, day = 31, hour = 10, minute = 0, second = 0, microsecond = 0\<rparr>
     (Some (asc ''1y 2mo'')) = Inl DateRangeError"
  by (simp add: parse_due_date_def no_format_1y_2mo parse_relative_def split_1y_2mo
      parse_parts_1y_2mo datetime_add_zero_dec31 carry_months_2025_14 datetime_replace_def
      days_in_month_def is_leap_def del: parse_parts.simps)


section \<open>\<^verbatim>\<open>update_task\<close> is not atomic\<close>














section \<open>Search dispatch\<close>

lemma startswith_prefix: "startswith s p = prefix p s"
  by (induction s p rule: startswith.induct) auto

lemma contains_sublist: "contains s p = sublist p s"
  by (induction s) (auto simp: startswith_prefix sublist_Cons_right)

lemma subseq_select: "subseq (select p ts) ts"
proof -
  have "subseq (map snd (filter (\<lambda>(i, t). p i t) (enumerate 0 ts))) (map snd (enumerate 0 ts))"
    by (rule subseq_map) simp
  then show ?thesis by (simp add: select_def)
qed

lemma given_cases:
  "given field = None \<longleftrightarrow> field = None \<or> field = Some []"
  "given field = Some f \<longleftrightarrow> field = Some f \<and> f \<noteq> []"
  by (auto simp: given_def split: option.splits)

text \<open>
  C2. \<^verbatim>\<open>search_tasks\<close> looks at the first character of the query. After a slash, the
  query without its first and last character is the pattern, searched in title,
  description, category and status of every task (an invalid pattern raises as soon as
  there is a task to search). After a circumflex, the rest of the query must be a prefix
  of the text of the given field or, with no field (none or the empty name), of title,
  description, category, status, the id as a string or the due date as a string.
  Otherwise the query must occur in the text of the given field or, with no field, in
  title, description, category, status or the due date as a string. The text of a field
  is the value of the attribute of that name: the id and the class counter in decimal,
  the due date in its string form, the five strings as they are, and for any other name
  what the interpreter answers. The result lists the matching tasks in the order of the
  store.
\<close>

theorem search_tasks_dispatch:
  "(prefix [0x2F] q \<longrightarrow>
      search_tasks R A st q field =
        (if tasks st = [] then Inr []
         else case R (butlast (tl q)) of
                None \<Rightarrow> Inl PatternError
              | Some found \<Rightarrow>
                  Inr (filter (\<lambda>t. found (title t) \<or> found (description t) \<or>
                                   found (category t) \<or> found (status t)) (tasks st)))) \<and>
   (\<not> prefix [0x2F] q \<and> prefix [0x5E] q \<and> (field = None \<or> field = Some []) \<longrightarrow>
      search_tasks R A st q field =
        Inr (filter (\<lambda>t. prefix (tl q) (title t) \<or> prefix (tl q) (description t) \<or>
                         prefix (tl q) (category t) \<or> prefix (tl q) (status t) \<or>
                         prefix (tl q) (str_int (tid t)) \<or>
                         prefix (tl q) (str_datetime (due_date t))) (tasks st))) \<and>
   (\<not> prefix [0x2F] q \<and> prefix [0x5E] q \<and> field = Some f \<and> f \<noteq> [] \<longrightarrow>
      search_tasks R A st q field =
        Inr (map snd (filter (\<lambda>(i, t). prefix (tl q)
                    (if f = asc ''id'' then str_int (tid t)
                     else if f = asc ''title'' then title t
                     else if f = asc ''description'' then description t
                     else if f = asc ''category'' then category t
                     else if f = asc ''due_date'' then str_datetime (due_date t)
                     else if f = asc ''priority'' then priority t
                     else if f = asc ''status'' then status t
                     else if f = asc ''_id_counter'' then str_int (id_counter st)
                     else A i f))
               (enumerate 0 (tasks st))))) \<and>
   (\<not> prefix [0x2F] q \<and> \<not> prefix [0x5E] q \<and> (field = None \<or> field = Some []) \<longrightarrow>
      search_tasks R A st q field =
        Inr (filter (\<lambda>t. sublist q (title t) \<or> sublist q (description t) \<or>
                         sublist q (category t) \<or> sublist q (status t) \<or>
                         sublist q (str_datetime (due_date t))) (tasks st))) \<and>
   (\<not> prefix [0x2F] q \<and> \<not> prefix [0x5E] q \<and> field = Some f \<and> f \<noteq> [] \<longrightarrow>
      search_tasks R A st q field =
        Inr (map snd (filter (\<lambda>(i, t). sublist q
                    (if f = asc ''id'' then str_int (tid t)
                     else if f = asc ''title'' then title t
                     else if f = asc ''description'' then description t
                     else if f = asc ''category'' then category t
                     else if f = asc ''due_date'' then str_datetime (due_date t)
                     else if f = asc ''priority'' then priority t
                     else if f = asc ''status'' then status t
                     else if f = asc ''_id_counter'' then str_int (id_counter st)
                     else A i f))
               (enumerate 0 (tasks st))))) \<and>
   (\<forall>found. search_tasks R A st q field = Inr found \<longrightarrow> subseq found (tasks st))"
proof (intro conjI impI allI)
  fix found assume "search_tasks R A st q field = Inr found"
  then show "subseq found (tasks st)"
    by (auto simp: search_tasks_def search_by_regex_def search_by_prefix_def search_by_term_def
        subseq_select split: if_splits option.splits)
qed (auto simp: search_tasks_def search_by_regex_def search_by_prefix_def search_by_term_def
       startswith_prefix contains_sublist asc_def select_def task_attr_def given_def
       split: option.splits)

theorem search_tasks_dispatch_witness:
  "search_tasks (\<lambda>p. Some (\<lambda>s. contains s p))
     (\<lambda>i f. if f = asc ''to_dict'' then asc ''<bound method'' else [])
     \<lparr>id_counter = 3, tasks = [sample_task\<lparr>tid := 2, title := asc ''Other''\<rparr>, sample_task],
      json_file = []\<rparr> (asc ''/Task/'') None = Inr [sample_task] \<and>
   search_tasks (\<lambda>p. Some (\<lambda>s. contains s p))
     (\<lambda>i f. if f = asc ''to_dict'' then asc ''<bound method'' else [])
     \<lparr>id_counter = 3, tasks = [sample_task\<lparr>tid := 2, title := asc ''Other''\<rparr>, sample_task],
      json_file = []\<rparr> (asc ''^Task 1'') None = Inr [sample_task] \<and>
   search_tasks (\<lambda>p. Some (\<lambda>s. contains s p))
     (\<lambda>i f. if f = asc ''to_dict'' then asc ''<bound method'' else [])
     \<lparr>id_counter = 3, tasks = [sample_task\<lparr>tid := 2, title := asc ''Other''\<rparr>, sample_task],
      json_file = []\<rparr> (asc ''^2'') (Some (asc ''id'')) =
     Inr [sample_task\<lparr>tid := 2, title := asc ''Other''\<rparr>] \<and>
   search_tasks (\<lambda>p. Some (\<lambda>s. contains s p))
     (\<lambda>i f. if f = asc ''to_dict'' then asc ''<bound method'' else [])
     \<lparr>id_counter = 3, tasks = [sample_task\<lparr>tid := 2, title := asc ''Other''\<rparr>, sample_task],
      json_file = []\<rparr> (asc ''ther'') (Some []) =
     Inr [sample_task\<lparr>tid := 2, title := asc ''Other''\<rparr>] \<and>
   search_tasks (\<lambda>p. Some (\<lambda>s. contains s p))
     (\<lambda>i f. if f = asc ''to_dict'' then asc ''<bound method'' else [])
     \<lparr>id_counter = 3, tasks = [sample_task\<lparr>tid := 2, title := asc ''Other''\<rparr>, sample_task],
      json_file = []\<rparr> (asc ''24-11'') (Some (asc ''due_date'')) =
     Inr [sample_task\<lparr>tid := 2, title := asc ''Other''\<rparr>, sample_task] \<and>
   search_tasks (\<lambda>p. Some (\<lambda>s. contains s p))
     (\<lambda>i f. if f = asc ''to_dict'' then asc ''<bound method'' else [])
     \<lparr>id_counter = 3, tasks = [sample_task\<lparr>tid := 2, title := asc ''Other''\<rparr>, sample_task],
      json_file = []\<rparr> (asc ''bound'') (Some (asc ''to_dict'')) =
     Inr [sample_task\<lparr>tid := 2, title := asc ''Other''\<rparr>, sample_task] \<and>
   subseq [sample_task] [sample_task\<lparr>tid := 2, title := asc ''Other''\<rparr>, sample_task]"
proof -
  let ?R = "\<lambda>p. Some (\<lambda>s. contains s p)"
  let ?A = "\<lambda>(i::nat) f. if f = asc ''to_dict'' then asc ''<bound method'' else []"
  let ?o = "sample_task\<lparr>tid := 2, title := asc ''Other''\<rparr>"
  let ?st = "\<lparr>id_counter = 3, tasks = [?o, sample_task], json_file = []\<rparr>"
  have d: "dec 2 = [0x32]" "dec 1 = [0x31]" "dec 2024 = [0x32, 0x30, 0x32, 0x34]"
    "dec 11 = [0x31, 0x31]" "dec 3 = [0x33]" "dec 10 = [0x31, 0x30]" "dec 0 = [0x30]"
    "dec (Suc 0) = [0x31]"
    by (simp_all add: dec.simps)
  have ne: "tasks ?st \<noteq> []" by simp
  note T = search_tasks_dispatch[unfolded startswith_prefix[symmetric] contains_sublist[symmetric]]
  have 1: "search_tasks ?R ?A ?st (asc ''/Task/'') None = Inr [sample_task]"
    using T[of "asc ''/Task/''" ?R ?A ?st None]
    by (simp add: asc_def sample_task_def)
  have 2: "search_tasks ?R ?A ?st (asc ''^Task 1'') None = Inr [sample_task]"
    using T[of "asc ''^Task 1''" ?R ?A ?st None]
    by (simp add: asc_def sample_task_def sample_now_def str_int_def str_datetime_def zfill_def d)
  have 3: "search_tasks ?R ?A ?st (asc ''^2'') (Some (asc ''id'')) = Inr [?o]"
    using T[of "asc ''^2''" ?R ?A ?st "Some (asc ''id'')" "asc ''id''"]
    by (simp add: asc_def sample_task_def str_int_def d)
  have 4: "search_tasks ?R ?A ?st (asc ''ther'') (Some []) = Inr [?o]"
    using T[of "asc ''ther''" ?R ?A ?st "Some []"]
    by (simp add: asc_def sample_task_def sample_now_def str_datetime_def zfill_def d)
  have 5: "search_tasks ?R ?A ?st (asc ''24-11'') (Some (asc ''due_date'')) = Inr [?o, sample_task]"
    using T[of "asc ''24-11''" ?R ?A ?st "Some (asc ''due_date'')" "asc ''due_date''"]
    by (simp add: asc_def sample_task_def sample_now_def str_datetime_def zfill_def d)
  have 6: "search_tasks ?R ?A ?st (asc ''bound'') (Some (asc ''to_dict'')) = Inr [?o, sample_task]"
    using T[of "asc ''bound''" ?R ?A ?st "Some (asc ''to_dict'')" "asc ''to_dict''"]
    by (simp add: asc_def)
  from search_tasks_dispatch[of "asc ''/Task/''" ?R ?A ?st None] 1
  have 7: "subseq [sample_task] [?o, sample_task]" by simp
  from 1 2 3 4 5 6 7 show ?thesis by (intro conjI)
qed


section \<open>Parts of a relative expression that do not match are skipped\<close>

lemma total_Nil [simp]: "total U f [] = 0"
  by (simp add: total_def)

lemma total_Cons [simp]:
  "total U f (p # ps) = (case part_unit U p of None \<Rightarrow> 0 | Some vu \<Rightarrow> f vu) + total U f ps"
  by (simp add: total_def)


























section \<open>Saving and loading a task\<close>

lemma dec_small: "n < 10 \<Longrightarrow> dec n = [0x30 + n]"
  by (simp add: dec.simps)

lemma dec_two: "10 \<le> n \<Longrightarrow> n < 100 \<Longrightarrow> dec n = [0x30 + n div 10, 0x30 + n mod 10]"
  by (subst dec.simps) (simp add: dec_small)

lemma dec_three:
  "100 \<le> n \<Longrightarrow> n < 1000 \<Longrightarrow> dec n = [0x30 + n div 100, 0x30 + n div 10 mod 10, 0x30 + n mod 10]"
proof -
  assume a: "100 \<le> n" "n < 1000"
  then have "10 \<le> n div 10" "n div 10 < 100" by auto
  then have "dec (n div 10) = [0x30 + n div 10 div 10, 0x30 + n div 10 mod 10]" by (rule dec_two)
  with a show ?thesis by (subst dec.simps) (simp add: div_mult2_eq[symmetric])
qed

lemma dec_four:
  "1000 \<le> n \<Longrightarrow> n < 10000 \<Longrightarrow>
     dec n = [0x30 + n div 1000, 0x30 + n div 100 mod 10, 0x30 + n div 10 mod 10, 0x30 + n mod 10]"
proof -
  assume a: "1000 \<le> n" "n < 10000"
  then have "100 \<le> n div 10" "n div 10 < 1000" by auto
  then have "dec (n div 10) = [0x30 + n div 10 div 100, 0x30 + n div 10 div 10 mod 10, 0x30 + n div 10 mod 10]"
    by (rule dec_three)
  with a show ?thesis by (subst dec.simps) (simp add: div_mult2_eq[symmetric])
qed

lemma pad2: "n < 100 \<Longrightarrow> zfill 2 (dec n) = [0x30 + n div 10, 0x30 + n mod 10]"
  by (cases "n < 10") (simp_all add: zfill_def dec_small dec_two)

lemma pad4:
  "n < 10000 \<Longrightarrow>
     zfill 4 (dec n) = [0x30 + n div 1000, 0x30 + n div 100 mod 10, 0x30 + n div 10 mod 10, 0x30 + n mod 10]"
proof -
  assume a: "n < 10000"
  consider "n < 10" | "10 \<le> n" "n < 100" | "100 \<le> n" "n < 1000" | "1000 \<le> n" by linarith
  then show ?thesis
  proof cases
    case 1 then show ?thesis by (simp add: zfill_def dec_small numeral_3_eq_3)
  next
    case 2 then show ?thesis by (simp add: zfill_def dec_two numeral_2_eq_2)
  next
    case 3 then show ?thesis by (simp add: zfill_def dec_three)
  next
    case 4 with a show ?thesis by (simp add: zfill_def dec_four)
  qed
qed

lemma digit_row:
  assumes "ucd_ascii_digits U" and "b < 10"
  shows "u_decimal U (0x30 + b) = Some b" and "is_digit U (0x30 + b)"
proof -
  from assms show "u_decimal U (0x30 + b) = Some b"
    by (simp add: ucd_ascii_digits_def)
  then show "is_digit U (0x30 + b)" by (simp add: is_digit_def)
qed

lemma py_int2:
  assumes "ucd_ascii_digits U" and "a < 10" and "b < 10"
  shows "py_int U [0x30 + a, 0x30 + b] = 10 * a + b"
  using digit_row(1)[OF assms(1)] assms(2,3) by (simp add: py_int_def)

lemma py_int4:
  assumes "ucd_ascii_digits U" and "a < 10" and "b < 10" and "c < 10" and "d < 10"
  shows "py_int U [0x30 + a, 0x30 + b, 0x30 + c, 0x30 + d] = 1000 * a + 100 * b + 10 * c + d"
  using digit_row(1)[OF assms(1)] assms(2-5) by (simp add: py_int_def)

lemma alts_DY:
  assumes "ucd_ascii_digits U" and "a < 10" and "b < 10" and "c < 10" and "d < 10"
  shows "item_alts U DY ((0x30 + a) # (0x30 + b) # (0x30 + c) # (0x30 + d) # rest) =
           [([0x30 + a, 0x30 + b, 0x30 + c, 0x30 + d], rest)]"
  using digit_row(2)[OF assms(1)] assms(2-5) by (simp add: item_alts_def)

lemma alts_Dm:
  assumes "1 \<le> 10 * a + b" and "10 * a + b \<le> 12" and "b < 10"
  shows "\<exists>others. item_alts U Dm ((0x30 + a) # (0x30 + b) # rest) = ([0x30 + a, 0x30 + b], rest) # others"
proof -
  from assms have "a = 0 \<and> 1 \<le> b \<and> b \<le> 9 \<or> a = 1 \<and> b \<le> 2" by arith
  then show ?thesis
    by (auto simp: item_alts_def alt2_def alt1_def rng_def)
qed

lemma alts_Dd:
  assumes "ucd_ascii_digits U" and "1 \<le> 10 * a + b" and "10 * a + b \<le> 31" and "b < 10"
  shows "\<exists>others. item_alts U Dd ((0x30 + a) # (0x30 + b) # rest) = ([0x30 + a, 0x30 + b], rest) # others"
proof -
  from assms have "a = 0 \<and> 1 \<le> b \<and> b \<le> 9 \<or> (a = 1 \<or> a = 2) \<or> a = 3 \<and> b \<le> 1" by arith
  then show ?thesis
    using digit_row(2)[OF assms(1) assms(4)]
    by (auto simp: item_alts_def alt2_def alt1_def rng_def)
qed

lemma alts_DH:
  assumes "ucd_ascii_digits U" and "10 * a + b < 24" and "b < 10"
  shows "\<exists>others. item_alts U DH ((0x30 + a) # (0x30 + b) # rest) = ([0x30 + a, 0x30 + b], rest) # others"
proof -
  from assms have "(a = 0 \<or> a = 1) \<or> a = 2 \<and> b \<le> 3" by arith
  then show ?thesis
    using digit_row(2)[OF assms(1) assms(3)]
    by (auto simp: item_alts_def alt2_def alt1_def rng_def)
qed

lemma alts_DM:
  assumes "ucd_ascii_digits U" and "a \<le> 5" and "b < 10"
  shows "\<exists>others. item_alts U DM ((0x30 + a) # (0x30 + b) # rest) = ([0x30 + a, 0x30 + b], rest) # others"
  using digit_row(2)[OF assms(1) assms(3)] assms(2)
  by (auto simp: item_alts_def alt2_def alt1_def rng_def)

lemma alts_Lit: "item_alts U (Lit [c]) (c # rest) = [([c], rest)]"
  by (simp add: item_alts_def alt1_def)

lemma alts_Ws: "a < 10 \<Longrightarrow> item_alts U Ws (0x20 # (0x30 + a) # rest) = [([0x20], (0x30 + a) # rest)]"
  by (simp add: item_alts_def isspace_def)

lemma re_match_step:
  "item_alts U it s = (g, r) # others \<Longrightarrow> re_match U its r = Some (gs, r') \<Longrightarrow>
     re_match U (it # its) s = Some (g # gs, r')"
  by simp

lemma re_match_step_ex:
  "\<exists>others. item_alts U it s = (g, r) # others \<Longrightarrow> re_match U its r = Some (gs, r') \<Longrightarrow>
     re_match U (it # its) s = Some (g # gs, r')"
  by auto

lemma re_match_step_one:
  "item_alts U it s = [(g, r)] \<Longrightarrow> re_match U its r = Some (gs, r') \<Longrightarrow>
     re_match U (it # its) s = Some (g # gs, r')"
  by simp

lemma days_in_month_le: "1 \<le> m \<Longrightarrow> m \<le> 12 \<Longrightarrow> days_in_month y m \<le> 31"
proof -
  assume "1 \<le> m" "m \<le> 12"
  then have "m \<in> {1, 2, 3, 4, 5, 6, 7, 8, 9, 10, 11, 12}" by simp arith
  then show ?thesis by (auto simp: days_in_month_def)
qed

lemma re_match_date:
  assumes AD: "ucd_ascii_digits U"
    and y: "y3 < 10" "y2 < 10" "y1 < 10" "y0 < 10"
    and m: "1 \<le> 10 * m1 + m0" "10 * m1 + m0 \<le> 12" "m0 < 10"
    and d: "1 \<le> 10 * d1 + d0" "10 * d1 + d0 \<le> 31" "d0 < 10"
    and r: "re_match U its rest = Some (gs, r')"
  shows "re_match U ([DY, Lit [0x2D], Dm, Lit [0x2D], Dd] @ its)
           ((0x30 + y3) # (0x30 + y2) # (0x30 + y1) # (0x30 + y0) # 0x2D #
            (0x30 + m1) # (0x30 + m0) # 0x2D # (0x30 + d1) # (0x30 + d0) # rest) =
         Some ([0x30 + y3, 0x30 + y2, 0x30 + y1, 0x30 + y0] # [0x2D] # [0x30 + m1, 0x30 + m0] #
               [0x2D] # [0x30 + d1, 0x30 + d0] # gs, r')"
proof -
  note r5 = re_match_step_ex[OF alts_Dd[OF AD d] r]
  note r4 = re_match_step_one[OF alts_Lit r5]
  note r3 = re_match_step_ex[OF alts_Dm[OF m] r4]
  note r2 = re_match_step_one[OF alts_Lit r3]
  note r1 = re_match_step_one[OF alts_DY[OF AD y] r2]
  from r1 show ?thesis by simp
qed

lemma re_match_time:
  assumes AD: "ucd_ascii_digits U"
    and h: "10 * h1 + h0 < 24" "h0 < 10"
    and n: "n1 \<le> 5" "n0 < 10"
  shows "re_match U [Ws, DH, Lit [0x3A], DM]
           (0x20 # (0x30 + h1) # (0x30 + h0) # 0x3A # [0x30 + n1, 0x30 + n0]) =
         Some ([[0x20], [0x30 + h1, 0x30 + h0], [0x3A], [0x30 + n1, 0x30 + n0]], [])"
proof -
  have r0: "re_match U [] [] = Some ([], [])" by simp
  note r4 = re_match_step_ex[OF alts_DM[OF AD n] r0]
  note r3 = re_match_step_one[OF alts_Lit r4]
  note r2 = re_match_step_ex[OF alts_DH[OF AD h] r3]
  from h have "h1 < 10" by arith
  note r1 = re_match_step_one[OF alts_Ws[OF this] r2]
  from r1 show ?thesis by simp
qed

lemma digits4:
  "1000 * (n div 1000) + 100 * (n div 100 mod 10) + 10 * (n div 10 mod 10) + n mod 10 = (n::nat)"
proof -
  define a where "a = n div 10"
  define b where "b = n div 100"
  define c where "c = n div 1000"
  have ab: "a div 10 = b" by (simp add: a_def b_def div_mult2_eq[symmetric])
  have bc: "b div 10 = c" by (simp add: b_def c_def div_mult2_eq[symmetric])
  have 1: "n = 10 * a + n mod 10" by (simp add: a_def)
  have 2: "a = 10 * b + a mod 10" using ab[symmetric] by simp
  have 3: "b = 10 * c + b mod 10" using bc[symmetric] by simp
  from 1 2 3 have "1000 * c + 100 * (b mod 10) + 10 * (a mod 10) + n mod 10 = n" by linarith
  then show ?thesis by (simp add: a_def b_def c_def)
qed

lemma strftime_roundtrip:
  assumes AD: "ucd_ascii_digits U" and V: "valid_datetime d" and Y: "1000 \<le> year d"
  shows "try_formats U now (strftime d) date_formats =
           Some (d\<lparr>second := 0, microsecond := 0\<rparr>)"
proof -
  define y3 y2 y1 y0 where "y3 = year d div 1000" and "y2 = year d div 100 mod 10"
    and "y1 = year d div 10 mod 10" and "y0 = year d mod 10"
  define m1 m0 where "m1 = month d div 10" and "m0 = month d mod 10"
  define d1 d0 where "d1 = day d div 10" and "d0 = day d mod 10"
  define h1 h0 where "h1 = hour d div 10" and "h0 = hour d mod 10"
  define n1 n0 where "n1 = minute d div 10" and "n0 = minute d mod 10"
  note defs = y3_def y2_def y1_def y0_def m1_def m0_def d1_def d0_def h1_def h0_def n1_def n0_def
  from V have v: "1 \<le> year d" "year d \<le> 9999" "1 \<le> month d" "month d \<le> 12" "1 \<le> day d"
    "day d \<le> days_in_month (year d) (month d)" "hour d < 24" "minute d < 60"
    by (simp_all add: valid_datetime_def)
  from days_in_month_le[OF v(3,4), of "year d"] v(6) have d31: "day d \<le> 31" by simp
  have y: "y3 < 10" "y2 < 10" "y1 < 10" "y0 < 10"
    and yv: "1000 * y3 + 100 * y2 + 10 * y1 + y0 = year d"
    using v(2) unfolding defs by (simp_all add: digits4)
  have m: "1 \<le> 10 * m1 + m0" "10 * m1 + m0 \<le> 12" "m0 < 10" and mv: "10 * m1 + m0 = month d"
    using v(3,4) unfolding defs by simp_all
  have dd: "1 \<le> 10 * d1 + d0" "10 * d1 + d0 \<le> 31" "d0 < 10" and dv: "10 * d1 + d0 = day d"
    using v(5) d31 unfolding defs by simp_all
  have h: "10 * h1 + h0 < 24" "h0 < 10" and hv: "10 * h1 + h0 = hour d"
    using v(7) unfolding defs by simp_all
  have n: "n1 \<le> 5" "n0 < 10" and nv: "10 * n1 + n0 = minute d"
    using v(8) unfolding defs by simp_all
  from m dd h have lt: "m1 < 10" "d1 < 10" "h1 < 10" by arith+
  from n have lt2: "n1 < 10" by simp
  have S: "strftime d =
       (0x30 + y3) # (0x30 + y2) # (0x30 + y1) # (0x30 + y0) # 0x2D #
       (0x30 + m1) # (0x30 + m0) # 0x2D # (0x30 + d1) # (0x30 + d0) #
       0x20 # (0x30 + h1) # (0x30 + h0) # 0x3A # [0x30 + n1, 0x30 + n0]"
    using v d31 Y unfolding defs strftime_def by (simp add: pad2 dec_four)
  let ?tail = "0x20 # (0x30 + h1) # (0x30 + h0) # 0x3A # [0x30 + n1, 0x30 + n0]"
  have r0: "re_match U [] ?tail = Some ([], ?tail)" by simp
  from re_match_date[OF AD y m dd r0]
  have "re_match U fmt_date (strftime d) =
      Some ([[0x30 + y3, 0x30 + y2, 0x30 + y1, 0x30 + y0], [0x2D], [0x30 + m1, 0x30 + m0],
             [0x2D], [0x30 + d1, 0x30 + d0]], ?tail)"
    unfolding S fmt_date_def by simp
  then have f1: "strptime U (strftime d) fmt_date = None"
    by (simp add: strptime_def)
  from re_match_date[OF AD y m dd re_match_time[OF AD h n]]
  have "re_match U fmt_date_time (strftime d) =
      Some ([[0x30 + y3, 0x30 + y2, 0x30 + y1, 0x30 + y0], [0x2D], [0x30 + m1, 0x30 + m0],
             [0x2D], [0x30 + d1, 0x30 + d0], [0x20], [0x30 + h1, 0x30 + h0], [0x3A],
             [0x30 + n1, 0x30 + n0]], [])"
    unfolding S fmt_date_time_def by simp
  moreover have "set_fields U fmt_date_time
       [[0x30 + y3, 0x30 + y2, 0x30 + y1, 0x30 + y0], [0x2D], [0x30 + m1, 0x30 + m0],
        [0x2D], [0x30 + d1, 0x30 + d0], [0x20], [0x30 + h1, 0x30 + h0], [0x3A],
        [0x30 + n1, 0x30 + n0]]
       \<lparr>year = 1900, month = 1, day = 1, hour = 0, minute = 0, second = 0, microsecond = 0\<rparr> =
     d\<lparr>second := 0, microsecond := 0\<rparr>"
    unfolding fmt_date_time_def
    by (simp add: py_int2[OF AD] py_int4[OF AD] y m dd h n lt lt2 yv mv dv hv nv)
  moreover have "valid_datetime (d\<lparr>second := 0, microsecond := 0\<rparr>)"
    using V by (simp add: valid_datetime_def)
  ultimately have f2: "strptime U (strftime d) fmt_date_time =
      Some (d\<lparr>second := 0, microsecond := 0\<rparr>)"
    by (simp add: strptime_def)
  have ne: "fmt_date_time \<noteq> fmt_time" by (simp add: fmt_date_time_def fmt_time_def)
  show ?thesis
    by (simp add: date_formats_def f1 f2 ne)
qed

lemma Task_init_to_dict:
  assumes D: "ucd_ascii_digits U" and K: "ucd_keeps U (categories @ priorities @ statuses)"
    and V: "valid_task t" and Y: "1000 \<le> year (due_date t)"
  shows "Task_init U now c (to_dict t) = Inr (to_minute t, max (tid t) c + 1)"
proof -
  from V have v: "title_ok (title t)" "category t \<in> set categories" "priority t \<in> set priorities"
    "status t \<in> set statuses" "valid_datetime (due_date t)"
    by (simp_all add: valid_task_def)
  have c: "normalize_value U (category t) categories = Inr (category t)"
    by (rule normalize_canonical[OF K v(2)]) auto
  have p: "normalize_value U (priority t) priorities = Inr (priority t)"
    by (rule normalize_canonical[OF K v(3)]) auto
  have s: "normalize_value U (status t) statuses = Inr (status t)"
    by (rule normalize_canonical[OF K v(4)]) auto
  have d: "parse_due_date U now (Some (strftime (due_date t))) =
      Inr ((due_date t)\<lparr>second := 0, microsecond := 0\<rparr>)"
    by (simp add: parse_due_date_def strftime_roundtrip[OF D v(5) Y])
  show ?thesis
    by (simp add: Task_init_def to_dict_def v(1) c p s d to_minute_def)
qed

lemma load_tasks_to_dict:
  assumes D: "ucd_ascii_digits U" and K: "ucd_keeps U (categories @ priorities @ statuses)"
  shows "list_all (\<lambda>t. valid_task t \<and> 1000 \<le> year (due_date t)) ts \<Longrightarrow>
     \<exists>c'. load_tasks U clock c (map to_dict ts) = Inr (map to_minute ts, c')"
proof (induction ts arbitrary: clock c)
  case Nil
  show ?case by simp
next
  case (Cons t ts)
  then have t: "valid_task t" "1000 \<le> year (due_date t)"
    and ts: "list_all (\<lambda>t. valid_task t \<and> 1000 \<le> year (due_date t)) ts" by simp_all
  from Cons.IH[OF ts, of "\<lambda>i. clock (Suc i)" "max (tid t) c + 1"]
  obtain c' where "load_tasks U (\<lambda>i. clock (Suc i)) (max (tid t) c + 1) (map to_dict ts) =
      Inr (map to_minute ts, c')" by blast
  with Task_init_to_dict[OF D K t, of "clock 0" c]
  show ?case by simp
qed

text \<open>
  Where the round trip holds. Under the two facts about the Unicode rows, building a task
  from the saved record of a valid task whose due date lies in the year 1000 or later
  gives the task back, with the due date cut to the minute (and the counter moved past
  its id); so loading what \<^verbatim>\<open>_save_tasks\<close> wrote for a store of such tasks gives the same
  tasks in the same order, due dates cut to the minute.
\<close>

lemma to_dict_roundtrip_from_year_1000:
  assumes "ucd_ascii_digits U" and "ucd_keeps U (categories @ priorities @ statuses)"
  shows "(valid_task t \<and> 1000 \<le> year (due_date t) \<longrightarrow>
            Task_init U now c (to_dict t) = Inr (to_minute t, max (tid t) c + 1)) \<and>
         (list_all (\<lambda>t. valid_task t \<and> 1000 \<le> year (due_date t)) (tasks st) \<longrightarrow>
            (\<exists>c'. load_tasks U clock c (json_file (save_tasks st)) =
                     Inr (map to_minute (tasks st), c')))"
  using Task_init_to_dict[OF assms] load_tasks_to_dict[OF assms, of "tasks st" clock c]
  by (simp add: save_tasks_def)

lemma to_dict_roundtrip_sample_task:
  "ucd_ascii_digits ucd_latin_cyrillic \<and>
   ucd_keeps ucd_latin_cyrillic (categories @ priorities @ statuses) \<and>
   valid_task (sample_task\<lparr>due_date := sample_now\<lparr>second := 42\<rparr>\<rparr>) \<and>
   1000 \<le> year (due_date (sample_task\<lparr>due_date := sample_now\<lparr>second := 42\<rparr>\<rparr>)) \<and>
   Task_init ucd_latin_cyrillic sample_now 0
     (to_dict (sample_task\<lparr>due_date := sample_now\<lparr>second := 42\<rparr>\<rparr>)) = Inr (sample_task, 2) \<and>
   (\<exists>c'. load_tasks ucd_latin_cyrillic (\<lambda>i. sample_now) 0
      (json_file (save_tasks \<lparr>id_counter = 2,
          tasks = [sample_task\<lparr>due_date := sample_now\<lparr>second := 42\<rparr>\<rparr>], json_file = []\<rparr>)) =
      Inr ([sample_task], c'))"
proof -
  let ?t = "sample_task\<lparr>due_date := sample_now\<lparr>second := 42\<rparr>\<rparr>"
  let ?st = "\<lparr>id_counter = 2, tasks = [?t], json_file = []\<rparr>"
  have v: "valid_task ?t"
    by (simp add: valid_task_def sample_task_def sample_now_def title_ok_def rng_def asc_def
        categories_def priorities_def statuses_def valid_datetime_def days_in_month_def)
  have y: "1000 \<le> year (due_date ?t)" by (simp add: sample_now_def)
  have m: "to_minute ?t = sample_task"
    by (simp add: to_minute_def sample_task_def sample_now_def)
  have i: "tid ?t = 1" by (simp add: sample_task_def)
  note T = to_dict_roundtrip_from_year_1000[OF ucd_latin_cyrillic_digits ucd_latin_cyrillic_keeps,
      of ?t sample_now 0 ?st "\<lambda>i. sample_now"]
  from T v y have a: "Task_init ucd_latin_cyrillic sample_now 0 (to_dict ?t) = Inr (sample_task, 2)"
    unfolding m i by simp
  from T v y have b: "\<exists>c'. load_tasks ucd_latin_cyrillic (\<lambda>i. sample_now) 0
      (json_file (save_tasks ?st)) = Inr ([sample_task], c')"
    using m by simp
  from ucd_latin_cyrillic_digits ucd_latin_cyrillic_keeps v y a b show ?thesis by (intro conjI)
qed

lemma normalize_unit_9:
  "normalize_value ucd_latin_cyrillic (u_lower ucd_latin_cyrillic (asc ''9'')) all_units =
     Inl (InvalidValue (asc ''9'') all_units)"
proof -
  have l: "u_lower ucd_latin_cyrillic (asc ''9'') = asc ''9''"
    by (simp add: ucd_latin_cyrillic_def asc_def lower_cp_def)
  have q: "u_lower ucd_latin_cyrillic (strip (asc ''9'')) = asc ''9''"
    by (simp add: ucd_latin_cyrillic_def strip_def asc_def isspace_def lower_cp_def)
  have "\<And>v. v \<in> set all_units \<Longrightarrow> fuzz_ratio (asc ''9'') v < 70"
  proof -
    fix v assume "v \<in> set all_units"
    then have "set (asc ''9'') \<inter> set v = {}"
      by (auto simp: all_units_def units_def asc_def)
    then have "fuzz_ratio (asc ''9'') v = 0"
      by (rule fuzz_ratio_disjoint) (simp add: asc_def)
    then show "fuzz_ratio (asc ''9'') v < 70" by simp
  qed
  then show ?thesis
    using normalize_value_low[of all_units ucd_latin_cyrillic "asc ''9''"] unfolding l q by blast
qed

lemma parse_due_date_0999_01_01:
  "parse_due_date ucd_latin_cyrillic now (Some (asc ''0999-01-01'')) =
     Inr \<lparr>year = 999, month = 1, day = 1, hour = 0, minute = 0, second = 0, microsecond = 0\<rparr>"
  by (simp add: parse_due_date_def date_formats_def fmt_date_def fmt_time_def strptime_def
      item_alts_def alt1_def alt2_def rng_def is_digit_def asc_def ucd_latin_cyrillic_def
      py_int_def valid_datetime_def days_in_month_def)

lemma parse_due_date_999_01_01_00_00:
  "parse_due_date ucd_latin_cyrillic now (Some (asc ''999-01-01 00:00'')) =
     Inl (InvalidValue (asc ''9'') all_units)"
proof -
  have nf: "try_formats ucd_latin_cyrillic now (asc ''999-01-01 00:00'') date_formats = None"
    by (simp add: date_formats_def fmt_date_def fmt_date_time_def fmt_time_def fmt_iso_def
        strptime_def item_alts_def alt1_def alt2_def rng_def is_digit_def asc_def
        ucd_latin_cyrillic_def)
  have sp: "split (asc ''999-01-01 00:00'') = [asc ''999-01-01'', asc ''00:00'']"
    by (simp add: split_def asc_def isspace_def)
  have m: "match_part ucd_latin_cyrillic (asc ''999-01-01'') = Some (asc ''99'', asc ''9'')"
    by (simp add: match_part_def asc_def is_digit_def is_word_def ucd_latin_cyrillic_def
        isspace_def)
  show ?thesis
    by (simp add: parse_due_date_def nf parse_relative_def sp m normalize_unit_9)
qed

text \<open>
  C4 fails on the code for a due date before the year 1000. The text \<^verbatim>\<open>0999-01-01\<close> is
  accepted as a due date and gives a valid task due on 0999-01-01 00:00. Its record is
  saved with the text \<^verbatim>\<open>999-01-01 00:00\<close>, which no format parses; read as a relative
  expression, its part \<^verbatim>\<open>999-01-01\<close> matches the pattern as 99 with the unit word \<^verbatim>\<open>9\<close>,
  which the normalizer rejects. So the constructor raises on the saved record, and
  loading the file that \<^verbatim>\<open>_save_tasks\<close> wrote raises too, instead of giving the task back.
\<close>

theorem to_dict_year_999_not_reloaded:
  "Task_init ucd_latin_cyrillic sample_now 0
     ((title_only (asc ''Task 1''))\<lparr>d_id := Some 1, d_due_date := Some (asc ''0999-01-01'')\<rparr>) =
     Inr (sample_task\<lparr>due_date := \<lparr>year = 999, month = 1, day = 1, hour = 0, minute = 0,
                                         second = 0, microsecond = 0\<rparr>\<rparr>, 2) \<and>
   valid_task (sample_task\<lparr>due_date := \<lparr>year = 999, month = 1, day = 1, hour = 0, minute = 0,
                                         second = 0, microsecond = 0\<rparr>\<rparr>) \<and>
   d_due_date (to_dict (sample_task\<lparr>due_date := \<lparr>year = 999, month = 1, day = 1, hour = 0,
                                         minute = 0, second = 0, microsecond = 0\<rparr>\<rparr>)) =
     Some (asc ''999-01-01 00:00'') \<and>
   Task_init ucd_latin_cyrillic sample_now 0
     (to_dict (sample_task\<lparr>due_date := \<lparr>year = 999, month = 1, day = 1, hour = 0, minute = 0,
                                          second = 0, microsecond = 0\<rparr>\<rparr>)) =
     Inl (InvalidValue (asc ''9'') all_units) \<and>
   load_tasks ucd_latin_cyrillic (\<lambda>i. sample_now) 0
     (json_file (save_tasks \<lparr>id_counter = 2,
        tasks = [sample_task\<lparr>due_date := \<lparr>year = 999, month = 1, day = 1, hour = 0, minute = 0,
                                            second = 0, microsecond = 0\<rparr>\<rparr>],
        json_file = []\<rparr>)) =
     Inl (InvalidValue (asc ''9'') all_units)"
proof -
  let ?d = "\<lparr>year = 999, month = 1, day = 1, hour = 0, minute = 0, second = 0, microsecond = 0\<rparr>"
  let ?t = "sample_task\<lparr>due_date := ?d\<rparr>"
  have v: "valid_task ?t"
    by (simp add: valid_task_def sample_task_def title_ok_def rng_def asc_def
        categories_def priorities_def statuses_def valid_datetime_def days_in_month_def)
  have s: "strftime (due_date ?t) = asc ''999-01-01 00:00''"
    by (simp add: strftime_def zfill_def dec.simps asc_def)
  have c: "normalize_value ucd_latin_cyrillic (category ?t) categories = Inr (category ?t)"
    by (rule normalize_canonical[OF ucd_latin_cyrillic_keeps])
       (auto simp: sample_task_def categories_def)
  have p: "normalize_value ucd_latin_cyrillic (priority ?t) priorities = Inr (priority ?t)"
    by (rule normalize_canonical[OF ucd_latin_cyrillic_keeps])
       (auto simp: sample_task_def priorities_def)
  have st: "normalize_value ucd_latin_cyrillic (status ?t) statuses = Inr (status ?t)"
    by (rule normalize_canonical[OF ucd_latin_cyrillic_keeps])
       (auto simp: sample_task_def statuses_def)
  have t: "title_ok (title ?t)" using v by (simp add: valid_task_def)
  have b: "Task_init ucd_latin_cyrillic sample_now 0
     ((title_only (asc ''Task 1''))\<lparr>d_id := Some 1, d_due_date := Some (asc ''0999-01-01'')\<rparr>) =
     Inr (?t, 2)"
    using t c p st
    by (simp add: Task_init_def title_only_def sample_task_def parse_due_date_0999_01_01)
  have i: "Task_init ucd_latin_cyrillic sample_now 0 (to_dict ?t) =
      Inl (InvalidValue (asc ''9'') all_units)"
    using t c p st s by (simp add: Task_init_def to_dict_def parse_due_date_999_01_01_00_00)
  have d: "d_due_date (to_dict ?t) = Some (asc ''999-01-01 00:00'')"
    using s by (simp add: to_dict_def)
  have l: "load_tasks ucd_latin_cyrillic (\<lambda>i. sample_now) 0
     (json_file (save_tasks \<lparr>id_counter = 2, tasks = [?t], json_file = []\<rparr>)) =
     Inl (InvalidValue (asc ''9'') all_units)"
    using i by (simp add: save_tasks_def)
  from b v d i l show ?thesis by (intro conjI)
qed


end
